theory Spec2Isabelle
  imports Main "HOL-Library.Word" "HOL-Library.Monad_Syntax"
begin

unbundle bit_operations_syntax

section \<open>Bytes, errors and the byte reader\<close>

type_synonym byte = "8 word"

text \<open>
  The error values of the package and of the Go library calls it makes. The last two
  stand for run-time panics (an index out of range, a method call on a nil interface).
\<close>

datatype error =
    EOF
  | ErrUnexpectedEOF
  | ErrCantSeek
  | ErrFormatError
  | ErrServerFailure
  | ErrNameError
  | ErrNotImplemented
  | ErrRefused
  | PanicIndexOutOfRange
  | PanicNilDereference

text \<open>
  The \<^verbatim>\<open>io.Reader\<close> handed to every \<^verbatim>\<open>ReadFrom\<close>: the bytes, the cursor, and
  whether its dynamic type is an \<^verbatim>\<open>io.ReadSeeker\<close> (a \<^verbatim>\<open>bytes.Reader\<close> is).
\<close>

record Reader =
  data :: "byte list"
  pos :: nat
  seekable :: bool

definition NewReader :: "byte list \<Rightarrow> Reader" where
  "NewReader bs = \<lparr>data = bs, pos = 0, seekable = True\<rparr>"

text \<open>
  \<^verbatim>\<open>r.Read(b)\<close> of a \<^verbatim>\<open>bytes.Reader\<close>: at or past the end it returns \<^verbatim>\<open>io.EOF\<close> and
  leaves \<^verbatim>\<open>b\<close> alone; otherwise it copies as many bytes as fit and advances.
\<close>

definition Reader_Read :: "Reader \<Rightarrow> byte list \<Rightarrow> byte list \<times> Reader \<times> nat \<times> error option" where
  "Reader_Read r b =
     (if length (data r) \<le> pos r then (b, r, 0, Some EOF)
      else let src = drop (pos r) (data r);
               k = min (length b) (length src)
           in (take k src @ drop k b, r\<lparr>pos := pos r + k\<rparr>, k, None))"

text \<open>
  \<^verbatim>\<open>io.ReadFull(r, b)\<close>: an empty buffer reads nothing; no byte at all is \<^verbatim>\<open>io.EOF\<close>;
  fewer bytes than the buffer holds is \<^verbatim>\<open>io.ErrUnexpectedEOF\<close>, with the bytes that were
  there consumed.
\<close>

definition io_ReadFull :: "Reader \<Rightarrow> byte list \<Rightarrow> byte list \<times> Reader \<times> nat \<times> error option" where
  "io_ReadFull r b =
     (if length b = 0 then (b, r, 0, None)
      else if length (data r) \<le> pos r then (b, r, 0, Some EOF)
      else let src = drop (pos r) (data r);
               k = min (length b) (length src)
           in (take k src @ drop k b, r\<lparr>pos := pos r + k\<rparr>, k,
               if k < length b then Some ErrUnexpectedEOF else None))"

text \<open>
  \<^verbatim>\<open>io.CopyN(ioutil.Discard, r, n)\<close>: consumes up to \<^verbatim>\<open>n\<close> bytes; fewer than \<^verbatim>\<open>n\<close>
  available is \<^verbatim>\<open>io.EOF\<close>.
\<close>

definition io_CopyN_Discard :: "Reader \<Rightarrow> nat \<Rightarrow> Reader \<times> nat \<times> error option" where
  "io_CopyN_Discard r n =
     (let k = min n (length (data r) - pos r)
      in (r\<lparr>pos := pos r + k\<rparr>, k, if k = n then None else Some EOF))"

subsection \<open>Big-endian integers\<close>

fun BigEndian_Uint16 :: "byte list \<Rightarrow> 16 word" where
  "BigEndian_Uint16 (b0 # b1 # bs) = ucast b1 OR push_bit 8 (ucast b0)"
| "BigEndian_Uint16 bs = 0"

fun BigEndian_Uint32 :: "byte list \<Rightarrow> 32 word" where
  "BigEndian_Uint32 (b0 # b1 # b2 # b3 # bs) =
     ucast b3 OR push_bit 8 (ucast b2) OR push_bit 16 (ucast b1) OR push_bit 24 (ucast b0)"
| "BigEndian_Uint32 bs = 0"

definition BigEndian_PutUint16 :: "16 word \<Rightarrow> byte list" where
  "BigEndian_PutUint16 v = [ucast (drop_bit 8 v), ucast v]"

definition BigEndian_PutUint32 :: "32 word \<Rightarrow> byte list" where
  "BigEndian_PutUint32 v =
     [ucast (drop_bit 24 v), ucast (drop_bit 16 v), ucast (drop_bit 8 v), ucast v]"

text \<open>
  \<^verbatim>\<open>binary.Read(r, binary.BigEndian, &x)\<close>: the second argument is the value \<^verbatim>\<open>x\<close> holds
  before the call, which a failed read leaves in place.
\<close>

definition binary_Read16 :: "Reader \<Rightarrow> 16 word \<Rightarrow> 16 word \<times> Reader \<times> error option" where
  "binary_Read16 r x =
     (case io_ReadFull r (replicate 2 0) of
        (bs, r1, i, Some e) \<Rightarrow> (x, r1, Some e)
      | (bs, r1, i, None) \<Rightarrow> (BigEndian_Uint16 bs, r1, None))"

definition binary_Read32 :: "Reader \<Rightarrow> 32 word \<Rightarrow> 32 word \<times> Reader \<times> error option" where
  "binary_Read32 r x =
     (case io_ReadFull r (replicate 4 0) of
        (bs, r1, i, Some e) \<Rightarrow> (x, r1, Some e)
      | (bs, r1, i, None) \<Rightarrow> (BigEndian_Uint32 bs, r1, None))"

definition binary_ReadBytes :: "Reader \<Rightarrow> byte list \<Rightarrow> byte list \<times> Reader \<times> error option" where
  "binary_ReadBytes r x =
     (case io_ReadFull r (replicate (length x) 0) of
        (bs, r1, i, Some e) \<Rightarrow> (x, r1, Some e)
      | (bs, r1, i, None) \<Rightarrow> (bs, r1, None))"

section \<open>Header\<close>

record Header =
  ID :: "16 word"
  IsReply :: bool
  Opcode :: byte
  IsAuthoritative :: bool
  IsTruncated :: bool
  IsRecursionDesired :: bool
  IsRecursionAvailable :: bool
  ResponseCode :: byte
  QuestionCount :: "16 word"
  AnswerCount :: "16 word"
  AuthorityCount :: "16 word"
  AdditionalCount :: "16 word"

definition QRBit :: byte where "QRBit = push_bit 7 1"
definition AABit :: byte where "AABit = push_bit 2 1"
definition TCBit :: byte where "TCBit = push_bit 1 1"
definition RDBit :: byte where "RDBit = push_bit 0 1"
definition RABit :: byte where "RABit = push_bit 7 1"
definition OFBit :: byte where "OFBit = push_bit 6 3"

definition zero_Header :: Header where
  "zero_Header =
     \<lparr>ID = 0, IsReply = False, Opcode = 0, IsAuthoritative = False, IsTruncated = False,
      IsRecursionDesired = False, IsRecursionAvailable = False, ResponseCode = 0,
      QuestionCount = 0, AnswerCount = 0, AuthorityCount = 0, AdditionalCount = 0\<rparr>"

text \<open>
  \<^verbatim>\<open>Header.ReadFrom\<close>. The result of reading the two control bytes is not checked; a flag
  is only ever set, never cleared; the response code keeps every bit of the second
  control byte but bit 7.
\<close>

definition Header_ReadFrom :: "Header \<Rightarrow> Reader \<Rightarrow> Header \<times> Reader \<times> nat \<times> error option" where
  "Header_ReadFrom h r =
     (case binary_Read16 r (ID h) of
        (v, r1, Some e) \<Rightarrow> (h, r1, 0, Some e)
      | (v, r1, None) \<Rightarrow>
     (case Reader_Read r1 [0, 0] of (b, r2, k, e0) \<Rightarrow>
        let h1 = h\<lparr>ID := v\<rparr>;
            h2 = (if (b ! 0) AND QRBit = QRBit then h1\<lparr>IsReply := True\<rparr> else h1);
            h3 = (if (b ! 0) AND AABit = AABit then h2\<lparr>IsAuthoritative := True\<rparr> else h2);
            h4 = (if (b ! 0) AND TCBit = TCBit then h3\<lparr>IsTruncated := True\<rparr> else h3);
            h5 = (if (b ! 0) AND RDBit = RDBit then h4\<lparr>IsRecursionDesired := True\<rparr> else h4);
            h6 = (if (b ! 1) AND RABit = RABit then h5\<lparr>IsRecursionAvailable := True\<rparr> else h5);
            h7 = h6\<lparr>Opcode := drop_bit 3 ((b ! 0) AND NOT QRBit)\<rparr>;
            h8 = h7\<lparr>ResponseCode := (b ! 1) AND NOT RABit\<rparr>
        in
     (case binary_Read16 r2 (QuestionCount h8) of
        (c, r3, Some e) \<Rightarrow> (h8, r3, 0, Some e)
      | (c, r3, None) \<Rightarrow>
     (case binary_Read16 r3 (AnswerCount h8) of
        (c1, r4, Some e) \<Rightarrow> (h8\<lparr>QuestionCount := c\<rparr>, r4, 0, Some e)
      | (c1, r4, None) \<Rightarrow>
     (case binary_Read16 r4 (AuthorityCount h8) of
        (c2, r5, Some e) \<Rightarrow> (h8\<lparr>QuestionCount := c, AnswerCount := c1\<rparr>, r5, 0, Some e)
      | (c2, r5, None) \<Rightarrow>
     (case binary_Read16 r5 (AdditionalCount h8) of
        (c3, r6, Some e) \<Rightarrow>
          (h8\<lparr>QuestionCount := c, AnswerCount := c1, AuthorityCount := c2\<rparr>, r6, 0, Some e)
      | (c3, r6, None) \<Rightarrow>
          (h8\<lparr>QuestionCount := c, AnswerCount := c1, AuthorityCount := c2,
              AdditionalCount := c3\<rparr>, r6, 12, None)))))))"

text \<open>\<^verbatim>\<open>Header.WriteTo\<close> into a \<^verbatim>\<open>bytes.Buffer\<close>, which never fails.\<close>

definition Header_WriteTo :: "Header \<Rightarrow> byte list" where
  "Header_WriteTo h =
     (let b0 = push_bit 3 (Opcode h);
          b1 = ResponseCode h;
          b0 = (if IsReply h then b0 OR QRBit else b0);
          b0 = (if IsAuthoritative h then b0 OR AABit else b0);
          b0 = (if IsTruncated h then b0 OR TCBit else b0);
          b0 = (if IsRecursionDesired h then b0 OR RDBit else b0);
          b1 = (if IsRecursionAvailable h then b1 OR RABit else b1)
      in BigEndian_PutUint16 (ID h) @ [b0, b1] @ BigEndian_PutUint16 (QuestionCount h)
           @ BigEndian_PutUint16 (AnswerCount h) @ BigEndian_PutUint16 (AuthorityCount h)
           @ BigEndian_PutUint16 (AdditionalCount h))"

section \<open>Labels and names\<close>

record Label =
  Length :: byte
  Name :: "byte list"

type_synonym Domain = "Label list"

definition zero_Label :: Label where
  "zero_Label = \<lparr>Label.Length = 0, Name = []\<rparr>"

text \<open>
  \<^verbatim>\<open>Label.ReadFrom\<close>: the length byte; with both top bits set one more byte, kept as the
  label's name; otherwise that many bytes of name, whatever the top bits are.
\<close>

definition Label_ReadFrom :: "Label \<Rightarrow> Reader \<Rightarrow> Label \<times> Reader \<times> nat \<times> error option" where
  "Label_ReadFrom l r =
     (case Reader_Read r [0] of
        (b, r1, k, Some e) \<Rightarrow> (l, r1, 0, Some e)
      | (b, r1, k, None) \<Rightarrow>
          let l1 = l\<lparr>Label.Length := b ! 0\<rparr> in
          if (b ! 0) AND OFBit = OFBit then
            (case Reader_Read r1 b of
               (b', r2, k', Some e) \<Rightarrow> (l1, r2, 1, Some e)
             | (b', r2, k', None) \<Rightarrow> (l1\<lparr>Name := b'\<rparr>, r2, 2, None))
          else
            (case io_ReadFull r1 (replicate (unat (Label.Length l1)) 0) of
               (nm, r2, i, Some e) \<Rightarrow> (l1\<lparr>Name := nm\<rparr>, r2, 1, Some e)
             | (nm, r2, i, None) \<Rightarrow> (l1\<lparr>Name := nm\<rparr>, r2, 1 + i, None)))"

definition Label_WriteTo :: "Label \<Rightarrow> byte list" where
  "Label_WriteTo l = Label.Length l # Name l"

text \<open>
  \<^verbatim>\<open>Label.Offset\<close>, computed on \<^verbatim>\<open>int64\<close>; indexing an empty name panics.
\<close>

definition Label_Offset :: "Label \<Rightarrow> error + nat" where
  "Label_Offset l =
     (if Label.Length l AND OFBit = OFBit then
        (case Name l of
           [] \<Rightarrow> Inl PanicIndexOutOfRange
         | b # bs \<Rightarrow>
             Inr (unat (push_bit 8 ((ucast (Label.Length l) :: 64 word) AND NOT (ucast OFBit))
                        OR ucast b)))
      else Inr 0)"

text \<open>
  \<^verbatim>\<open>Domain.ReadFrom\<close>. \<^verbatim>\<open>None\<close> is a call that never returns. In the pointer branch the
  deferred function seeks back to the saved cursor and assigns that seek's result to the
  named result \<^verbatim>\<open>err\<close>, so whatever the nested read returned, the error is nil.
\<close>

partial_function (option) Domain_ReadFrom ::
  "Domain \<Rightarrow> Reader \<Rightarrow> (Domain \<times> Reader \<times> nat \<times> error option) option" where
  "Domain_ReadFrom d r =
     (case Label_ReadFrom zero_Label r of
        (label, r1, n, Some e) \<Rightarrow> Some (d, r1, n, Some e)
      | (label, r1, n, None) \<Rightarrow>
          (case Label_Offset label of
             Inl e \<Rightarrow> Some (d, r1, n, Some e)
           | Inr off \<Rightarrow>
               if off \<noteq> 0 then
                 (if seekable r1 then
                    do {
                      (d2, r2, i, e2) \<leftarrow> Domain_ReadFrom d (r1\<lparr>pos := off\<rparr>);
                      Some (d2, r2\<lparr>pos := pos r1\<rparr>, n, None)
                    }
                  else Some (d, r1, n, Some ErrCantSeek))
               else if Label.Length label = 0 then Some (d @ [label], r1, n, None)
               else
                 do {
                   (d2, r2, i, e2) \<leftarrow> Domain_ReadFrom (d @ [label]) r1;
                   Some (d2, r2, if e2 = None then n + i else n, e2)
                 }))"

definition Domain_WriteTo :: "Domain \<Rightarrow> byte list" where
  "Domain_WriteTo d = concat (map Label_WriteTo d)"

section \<open>Queries and resource records\<close>

definition TypeA :: "16 word" where "TypeA = 1"
definition TypeNS :: "16 word" where "TypeNS = 2"
definition TypeMD :: "16 word" where "TypeMD = 3"
definition TypeMF :: "16 word" where "TypeMF = 4"
definition TypeCNAME :: "16 word" where "TypeCNAME = 5"
definition TypeSOA :: "16 word" where "TypeSOA = 6"
definition TypeMB :: "16 word" where "TypeMB = 7"
definition TypeMG :: "16 word" where "TypeMG = 8"
definition TypeMR :: "16 word" where "TypeMR = 9"
definition TypePTR :: "16 word" where "TypePTR = 12"
definition TypeHINFO :: "16 word" where "TypeHINFO = 13"
definition TypeMINFO :: "16 word" where "TypeMINFO = 14"
definition TypeMX :: "16 word" where "TypeMX = 15"
definition TypeTXT :: "16 word" where "TypeTXT = 16"
definition TypeAAAA :: "16 word" where "TypeAAAA = 28"

record Query =
  Domain :: Domain
  Type :: "16 word"
  Class :: "16 word"

text \<open>\<^verbatim>\<open>ResourceRecord\<close> embeds \<^verbatim>\<open>Query\<close>: the record extends it.\<close>

record ResourceRecord = Query +
  TimeToLive :: "32 word"
  Length :: "16 word"

definition zero_Query :: Query where
  "zero_Query = \<lparr>Domain = [], Type = 0, Class = 0\<rparr>"

definition zero_ResourceRecord :: ResourceRecord where
  "zero_ResourceRecord = \<lparr>Domain = [], Type = 0, Class = 0, TimeToLive = 0, Length = 0\<rparr>"

text \<open>
  \<^verbatim>\<open>Query.ReadFrom\<close>, on the \<^verbatim>\<open>Query\<close> fields of any record that embeds one.
\<close>

definition Query_ReadFrom ::
  "'a Query_scheme \<Rightarrow> Reader \<Rightarrow> ('a Query_scheme \<times> Reader \<times> nat \<times> error option) option" where
  "Query_ReadFrom q r =
     do {
       (d, r1, n, e) \<leftarrow> Domain_ReadFrom (Domain q) r;
       let q1 = q\<lparr>Domain := d\<rparr> in
       if e \<noteq> None then Some (q1, r1, n, e)
       else
         (case binary_Read16 r1 (Type q1) of
            (t, r2, Some e1) \<Rightarrow> Some (q1, r2, n, Some e1)
          | (t, r2, None) \<Rightarrow>
         (case binary_Read16 r2 (Class q1) of
            (c, r3, Some e2) \<Rightarrow> Some (q1\<lparr>Type := t\<rparr>, r3, n, Some e2)
          | (c, r3, None) \<Rightarrow> Some (q1\<lparr>Type := t, Class := c\<rparr>, r3, n + 4, None)))
     }"

definition Query_WriteTo :: "'a Query_scheme \<Rightarrow> byte list" where
  "Query_WriteTo q =
     Domain_WriteTo (Domain q) @ BigEndian_PutUint16 (Type q) @ BigEndian_PutUint16 (Class q)"

definition ResourceRecord_ReadFrom ::
  "ResourceRecord \<Rightarrow> Reader \<Rightarrow> (ResourceRecord \<times> Reader \<times> nat \<times> error option) option" where
  "ResourceRecord_ReadFrom rr r =
     do {
       (rr1, r1, n, e) \<leftarrow> Query_ReadFrom rr r;
       if e \<noteq> None then Some (rr1, r1, n, e)
       else
         (case binary_Read32 r1 (TimeToLive rr1) of
            (t, r2, Some e1) \<Rightarrow> Some (rr1, r2, n, Some e1)
          | (t, r2, None) \<Rightarrow>
         (case binary_Read16 r2 (ResourceRecord.Length rr1) of
            (l, r3, Some e2) \<Rightarrow> Some (rr1\<lparr>TimeToLive := t\<rparr>, r3, n, Some e2)
          | (l, r3, None) \<Rightarrow>
              Some (rr1\<lparr>TimeToLive := t, ResourceRecord.Length := l\<rparr>, r3, n + 6, None)))
     }"

definition ResourceRecord_WriteTo :: "ResourceRecord \<Rightarrow> byte list" where
  "ResourceRecord_WriteTo rr =
     Query_WriteTo rr @ BigEndian_PutUint32 (TimeToLive rr)
       @ BigEndian_PutUint16 (ResourceRecord.Length rr)"

subsection \<open>The record variants\<close>

text \<open>
  \<^verbatim>\<open>IPv4\<close> and \<^verbatim>\<open>IPv6\<close> are arrays of 4 and 16 bytes: lists of that length.
\<close>

type_synonym IPv4 = "byte list"
type_synonym IPv6 = "byte list"

definition zero_IPv4 :: IPv4 where "zero_IPv4 = replicate 4 0"
definition zero_IPv6 :: IPv6 where "zero_IPv6 = replicate 16 0"

definition IPv4_ReadFrom :: "IPv4 \<Rightarrow> Reader \<Rightarrow> IPv4 \<times> Reader \<times> nat \<times> error option" where
  "IPv4_ReadFrom b r = (case binary_ReadBytes r b of (b1, r1, e) \<Rightarrow> (b1, r1, 4, e))"

definition IPv6_ReadFrom :: "IPv6 \<Rightarrow> Reader \<Rightarrow> IPv6 \<times> Reader \<times> nat \<times> error option" where
  "IPv6_ReadFrom b r = (case binary_ReadBytes r b of (b1, r1, e) \<Rightarrow> (b1, r1, 16, e))"

text \<open>
  A \<^verbatim>\<open>Reply\<close> held by a section of a message: nil, or a pointer to one of the record
  structs, each with its embedded \<^verbatim>\<open>ResourceRecord\<close> first and its own fields after, in
  the order the struct declares them.
\<close>

datatype Reply =
    NilReply
  | ResourceRecordA ResourceRecord IPv4
  | ResourceRecordNS ResourceRecord Domain
  | ResourceRecordMD ResourceRecord Domain
  | ResourceRecordMF ResourceRecord Domain
  | ResourceRecordCNAME ResourceRecord Domain
  | ResourceRecordSOA ResourceRecord Domain Domain "32 word" "32 word" "32 word" "32 word" "32 word"
  | ResourceRecordMB ResourceRecord Domain
  | ResourceRecordMG ResourceRecord Domain
  | ResourceRecordMR ResourceRecord Domain
  | ResourceRecordPTR ResourceRecord Domain
  | ResourceRecordHINFO ResourceRecord Label Label
  | ResourceRecordMINFO ResourceRecord Domain Domain
  | ResourceRecordMX ResourceRecord "16 word" Domain
  | ResourceRecordTXT ResourceRecord Domain
  | ResourceRecordAAAA ResourceRecord IPv6

type_synonym Section = "Reply list"

text \<open>
  \<^verbatim>\<open>Section.WriteTo\<close> runs the elements' \<^verbatim>\<open>WriteTo\<close> in order and stops at the first
  failure; \<^verbatim>\<open>Section_WriteTo_loop\<close> is that loop over the elements' outputs. Writing to a
  \<^verbatim>\<open>bytes.Buffer\<close> never fails, so the one failure is the call on a nil \<^verbatim>\<open>Reply\<close>.
\<close>

fun Section_WriteTo_loop :: "(error + byte list) list \<Rightarrow> error + byte list" where
  "Section_WriteTo_loop [] = Inr []"
| "Section_WriteTo_loop (Inl e # ws) = Inl e"
| "Section_WriteTo_loop (Inr bs # ws) =
     (case Section_WriteTo_loop ws of Inl e \<Rightarrow> Inl e | Inr cs \<Rightarrow> Inr (bs @ cs))"

fun Reply_WriteTo :: "Reply \<Rightarrow> error + byte list" where
  "Reply_WriteTo NilReply = Inl PanicNilDereference"
| "Reply_WriteTo (ResourceRecordA rr ip) =
     Section_WriteTo_loop [Inr (ResourceRecord_WriteTo rr), Inr ip]"
| "Reply_WriteTo (ResourceRecordNS rr authoritative) =
     Section_WriteTo_loop [Inr (ResourceRecord_WriteTo rr), Inr (Domain_WriteTo authoritative)]"
| "Reply_WriteTo (ResourceRecordMD rr host) =
     Section_WriteTo_loop [Inr (ResourceRecord_WriteTo rr), Inr (Domain_WriteTo host)]"
| "Reply_WriteTo (ResourceRecordMF rr host) =
     Section_WriteTo_loop [Inr (ResourceRecord_WriteTo rr), Inr (Domain_WriteTo host)]"
| "Reply_WriteTo (ResourceRecordCNAME rr canonical) =
     Section_WriteTo_loop [Inr (ResourceRecord_WriteTo rr), Inr (Domain_WriteTo canonical)]"
| "Reply_WriteTo (ResourceRecordSOA rr original mailbox serial refresh retry expire minimum) =
     Section_WriteTo_loop
       [Inr (ResourceRecord_WriteTo rr), Inr (Domain_WriteTo original),
        Inr (Domain_WriteTo mailbox), Inr (BigEndian_PutUint32 serial),
        Inr (BigEndian_PutUint32 refresh), Inr (BigEndian_PutUint32 retry),
        Inr (BigEndian_PutUint32 expire), Inr (BigEndian_PutUint32 minimum)]"
| "Reply_WriteTo (ResourceRecordMB rr host) =
     Section_WriteTo_loop [Inr (ResourceRecord_WriteTo rr), Inr (Domain_WriteTo host)]"
| "Reply_WriteTo (ResourceRecordMG rr mailbox) =
     Section_WriteTo_loop [Inr (ResourceRecord_WriteTo rr), Inr (Domain_WriteTo mailbox)]"
| "Reply_WriteTo (ResourceRecordMR rr mailbox) =
     Section_WriteTo_loop [Inr (ResourceRecord_WriteTo rr), Inr (Domain_WriteTo mailbox)]"
| "Reply_WriteTo (ResourceRecordPTR rr location) =
     Section_WriteTo_loop [Inr (ResourceRecord_WriteTo rr), Inr (Domain_WriteTo location)]"
| "Reply_WriteTo (ResourceRecordHINFO rr cpu os) =
     Section_WriteTo_loop
       [Inr (ResourceRecord_WriteTo rr), Inr (Label_WriteTo cpu), Inr (Label_WriteTo os)]"
| "Reply_WriteTo (ResourceRecordMINFO rr responsible errorbox) =
     Section_WriteTo_loop
       [Inr (ResourceRecord_WriteTo rr), Inr (Domain_WriteTo responsible),
        Inr (Domain_WriteTo errorbox)]"
| "Reply_WriteTo (ResourceRecordMX rr preference exchange) =
     Section_WriteTo_loop
       [Inr (ResourceRecord_WriteTo rr), Inr (BigEndian_PutUint16 preference),
        Inr (Domain_WriteTo exchange)]"
| "Reply_WriteTo (ResourceRecordTXT rr txt) =
     Section_WriteTo_loop [Inr (ResourceRecord_WriteTo rr), Inr (Domain_WriteTo txt)]"
| "Reply_WriteTo (ResourceRecordAAAA rr ip) =
     Section_WriteTo_loop [Inr (ResourceRecord_WriteTo rr), Inr ip]"

definition Section_WriteTo :: "Section \<Rightarrow> error + byte list" where
  "Section_WriteTo s = Section_WriteTo_loop (map Reply_WriteTo s)"

text \<open>
  \<^verbatim>\<open>Section.ReadFrom\<close> on a slice of \<^verbatim>\<open>k\<close> elements. For every element it reads a
  \<^verbatim>\<open>ResourceRecord\<close> and switches on its type; the result lists, per element, the record
  pointer stored in it, or \<^verbatim>\<open>None\<close> where the element was left as it was (the default
  branch, and the elements after a failure). The payload readers of the mail-exchange
  and start-of-authority records call \<^verbatim>\<open>Section.ReadFrom\<close> on a slice of their own
  fields' addresses (2 and 7 elements): that call reads resource records from the
  stream into that temporary slice and never touches the fields, which keep their zero
  values.
\<close>

partial_function (option) Section_ReadFrom ::
  "nat \<Rightarrow> Reader \<Rightarrow> (Reply option list \<times> Reader \<times> nat \<times> error option) option" where
  "Section_ReadFrom k r =
     (if k = 0 then Some ([], r, 0, None)
      else
        do {
          (rr, r1, i, e) \<leftarrow> ResourceRecord_ReadFrom zero_ResourceRecord r;
          if e \<noteq> None then Some (replicate k None, r1, 0, e)
          else
            do {
              (slot, r2, i2, e2) \<leftarrow>
                (if Type rr = TypeA then
                   (case IPv4_ReadFrom zero_IPv4 r1 of
                      (ip, r2, i2, e2) \<Rightarrow> Some (Some (ResourceRecordA rr ip), r2, i2, e2))
                 else if Type rr = TypeNS then
                   do {
                     (d, r2, i2, e2) \<leftarrow> Domain_ReadFrom [] r1;
                     Some (Some (ResourceRecordNS rr d), r2, i2, e2)
                   }
                 else if Type rr = TypeCNAME then
                   do {
                     (d, r2, i2, e2) \<leftarrow> Domain_ReadFrom [] r1;
                     Some (Some (ResourceRecordCNAME rr d), r2, i2, e2)
                   }
                 else if Type rr = TypeSOA then
                   do {
                     (s, r2, i2, e2) \<leftarrow> Section_ReadFrom 7 r1;
                     Some (Some (ResourceRecordSOA rr [] [] 0 0 0 0 0), r2, i2, e2)
                   }
                 else if Type rr = TypePTR then
                   do {
                     (d, r2, i2, e2) \<leftarrow> Domain_ReadFrom [] r1;
                     Some (Some (ResourceRecordPTR rr d), r2, i2, e2)
                   }
                 else if Type rr = TypeMX then
                   do {
                     (s, r2, i2, e2) \<leftarrow> Section_ReadFrom 2 r1;
                     Some (Some (ResourceRecordMX rr 0 []), r2, i2, e2)
                   }
                 else if Type rr = TypeTXT then
                   do {
                     (d, r2, i2, e2) \<leftarrow> Domain_ReadFrom [] r1;
                     Some (Some (ResourceRecordTXT rr d), r2, i2, e2)
                   }
                 else if Type rr = TypeAAAA then
                   (case IPv6_ReadFrom zero_IPv6 r1 of
                      (ip, r2, i2, e2) \<Rightarrow> Some (Some (ResourceRecordAAAA rr ip), r2, i2, e2))
                 else
                   (case io_CopyN_Discard r1 (unat (ResourceRecord.Length rr)) of
                      (r2, i2, e2) \<Rightarrow> Some (None, r2, i2, e2)));
              if e2 \<noteq> None then Some (slot # replicate (k - 1) None, r2, i, e2)
              else
                do {
                  (rest, r3, i3, e3) \<leftarrow> Section_ReadFrom (k - 1) r2;
                  Some (slot # rest, r3, i + i2 + i3, e3)
                }
            }
        })"

section \<open>Messages\<close>

type_synonym Question = "Query list"

fun Question_ReadFrom ::
  "Question \<Rightarrow> Reader \<Rightarrow> (Question \<times> Reader \<times> nat \<times> error option) option" where
  "Question_ReadFrom [] r = Some ([], r, 0, None)"
| "Question_ReadFrom (q # qs) r =
     do {
       (q1, r1, i, e) \<leftarrow> Query_ReadFrom q r;
       if e \<noteq> None then Some (q1 # qs, r1, 0, e)
       else
         do {
           (qs1, r2, i2, e2) \<leftarrow> Question_ReadFrom qs r1;
           Some (q1 # qs1, r2, i + i2, e2)
         }
     }"

definition Question_WriteTo :: "Question \<Rightarrow> byte list" where
  "Question_WriteTo q = concat (map Query_WriteTo q)"

record Message =
  Header :: Header
  Question :: Question
  Answer :: Section
  Authority :: Section
  Additional :: Section

definition zero_Message :: Message where
  "zero_Message =
     \<lparr>Header = zero_Header, Question = [], Answer = [], Authority = [], Additional = []\<rparr>"

text \<open>
  An element of a freshly made section is nil until \<^verbatim>\<open>Section.ReadFrom\<close> stores a record
  in it.
\<close>

definition made_Section :: "Reply option list \<Rightarrow> Section" where
  "made_Section s = map (\<lambda>x. case x of None \<Rightarrow> NilReply | Some rr \<Rightarrow> rr) s"

definition Message_ReadFrom ::
  "Message \<Rightarrow> Reader \<Rightarrow> (Message \<times> Reader \<times> nat \<times> error option) option" where
  "Message_ReadFrom m r =
     (case Header_ReadFrom (Header m) r of (h, r1, i, e) \<Rightarrow>
        let m1 = m\<lparr>Header := h\<rparr> in
        if e \<noteq> None then Some (m1, r1, 0, e)
        else
          do {
            (q, r2, i2, e2) \<leftarrow> Question_ReadFrom (replicate (unat (QuestionCount h)) zero_Query) r1;
            let m2 = m1\<lparr>Question := q\<rparr> in
            if e2 \<noteq> None then Some (m2, r2, i, e2)
            else
              do {
                (s3, r3, i3, e3) \<leftarrow> Section_ReadFrom (unat (AnswerCount h)) r2;
                let m3 = m2\<lparr>Answer := made_Section s3\<rparr> in
                if e3 \<noteq> None then Some (m3, r3, i + i2, e3)
                else
                  do {
                    (s4, r4, i4, e4) \<leftarrow> Section_ReadFrom (unat (AuthorityCount h)) r3;
                    let m4 = m3\<lparr>Authority := made_Section s4\<rparr> in
                    if e4 \<noteq> None then Some (m4, r4, i + i2 + i3, e4)
                    else
                      do {
                        (s5, r5, i5, e5) \<leftarrow> Section_ReadFrom (unat (AdditionalCount h)) r4;
                        let m5 = m4\<lparr>Additional := made_Section s5\<rparr> in
                        if e5 \<noteq> None then Some (m5, r5, i + i2 + i3 + i4, e5)
                        else Some (m5, r5, i + i2 + i3 + i4 + i5, None)
                      }
                  }
              }
          })"

definition Message_WriteTo :: "Message \<Rightarrow> error + byte list" where
  "Message_WriteTo m =
     Section_WriteTo_loop
       [Inr (Header_WriteTo (Header m)), Inr (Question_WriteTo (Question m)),
        Section_WriteTo (Answer m), Section_WriteTo (Authority m),
        Section_WriteTo (Additional m)]"

definition MarshalBinary :: "Message \<Rightarrow> error + byte list" where
  "MarshalBinary m = Message_WriteTo m"

text \<open>
  The map \<^verbatim>\<open>errors\<close> from response codes to errors; the entry of \<^verbatim>\<open>CodeNoError\<close> is a
  nil error. A lookup of a key that is not in a Go map gives the zero value, nil.
\<close>

definition CodeNoError :: byte where "CodeNoError = 0"
definition CodeFormatError :: byte where "CodeFormatError = 1"
definition CodeServerFailure :: byte where "CodeServerFailure = 2"
definition CodeNameError :: byte where "CodeNameError = 3"
definition CodeNotImplemented :: byte where "CodeNotImplemented = 4"
definition CodeRefused :: byte where "CodeRefused = 5"

definition errors :: "byte \<rightharpoonup> error option" where
  "errors =
     [CodeNoError \<mapsto> None,
      CodeFormatError \<mapsto> Some ErrFormatError,
      CodeServerFailure \<mapsto> Some ErrServerFailure,
      CodeNameError \<mapsto> Some ErrNameError,
      CodeNotImplemented \<mapsto> Some ErrNotImplemented,
      CodeRefused \<mapsto> Some ErrRefused]"

definition Message_Error :: "Message \<Rightarrow> error option" where
  "Message_Error m =
     (case errors (ResponseCode (Header m)) of None \<Rightarrow> None | Some e \<Rightarrow> e)"

definition UnmarshalBinary :: "Message \<Rightarrow> byte list \<Rightarrow> (Message \<times> error option) option" where
  "UnmarshalBinary m bs =
     do {
       (m1, r1, n, e) \<leftarrow> Message_ReadFrom m (NewReader bs);
       Some (m1, if e = None then Message_Error m1 else e)
     }"

definition AddQuery :: "Message \<Rightarrow> Query \<Rightarrow> Message" where
  "AddQuery m query =
     m\<lparr>Question := Question m @ [query],
       Header := (Header m)\<lparr>QuestionCount := QuestionCount (Header m) + 1\<rparr>\<rparr>"

section \<open>Predicates used in the statements\<close>

text \<open>A short read: one of the two end-of-input errors of the \<^verbatim>\<open>io\<close> package.\<close>

definition short_read :: "error option \<Rightarrow> bool" where
  "short_read e = (e = Some EOF \<or> e = Some ErrUnexpectedEOF)"

text \<open>
  What every reader of the package keeps between the reader it is given and the one it
  leaves: the bytes and the reader's kind, a cursor that never moves back and never
  leaves the buffer, an error that (on a seekable reader) is a short read, and on
  success at least \<open>k\<close> bytes consumed, all of them bytes of the buffer.
\<close>

definition frame_ok :: "nat \<Rightarrow> Reader \<Rightarrow> Reader \<Rightarrow> error option \<Rightarrow> bool" where
  "frame_ok k r r' e =
     (data r' = data r \<and> seekable r' = seekable r \<and> pos r \<le> pos r'
      \<and> (seekable r \<longrightarrow> e = None \<or> short_read e)
      \<and> (pos r \<le> length (data r) \<longrightarrow> pos r' \<le> length (data r))
      \<and> (e = None \<longrightarrow> pos r + k \<le> pos r' \<and> (0 < k \<longrightarrow> pos r' \<le> length (data r))))"

text \<open>
  A label as \<^verbatim>\<open>NewLabel\<close> builds it, short enough that its length byte does not have
  both top bits set; a name as \<^verbatim>\<open>NewDomain\<close> builds it from a host name with no empty
  part: non-empty labels, then the empty label.
\<close>

definition wf_Label :: "Label \<Rightarrow> bool" where
  "wf_Label l = (unat (Label.Length l) = length (Name l) \<and> Label.Length l AND OFBit \<noteq> OFBit)"

fun wf_Domain :: "Domain \<Rightarrow> bool" where
  "wf_Domain [] = False"
| "wf_Domain [l] = (l = zero_Label)"
| "wf_Domain (l # l' # ls) = (wf_Label l \<and> Label.Length l \<noteq> 0 \<and> wf_Domain (l' # ls))"

text \<open>
  The two bytes at \<open>p\<close> are a compression pointer to offset \<open>q\<close>; the bytes at \<open>p\<close> are a
  non-empty literal label, all of it in the buffer, that ends at \<open>q\<close>. A set of offsets
  is a loop of names when the name at each of them leads, by its pointer or past its
  first label, to another offset of the set.
\<close>

definition pointer_at :: "byte list \<Rightarrow> nat \<Rightarrow> nat \<Rightarrow> bool" where
  "pointer_at bs p q =
     (p + 1 < length bs \<and> bs ! p AND OFBit = OFBit
      \<and> q = unat (bs ! p AND 0x3F) * 256 + unat (bs ! (p + 1)))"

definition label_at :: "byte list \<Rightarrow> nat \<Rightarrow> nat \<Rightarrow> bool" where
  "label_at bs p q =
     (p < length bs \<and> bs ! p AND OFBit \<noteq> OFBit \<and> bs ! p \<noteq> 0
      \<and> q = p + 1 + unat (bs ! p) \<and> q \<le> length bs)"

definition name_loop :: "byte list \<Rightarrow> nat set \<Rightarrow> bool" where
  "name_loop bs S = (\<forall>p\<in>S. \<exists>q\<in>S. (pointer_at bs p q \<and> q \<noteq> 0) \<or> label_at bs p q)"

text \<open>
  The body of \<^verbatim>\<open>Section.ReadFrom\<close> with its recursive calls as a parameter, in two
  parts: the switch on the record type, and the loop around it. \<^verbatim>\<open>Section_ReadFrom\<close> is
  the fixed point of \<^verbatim>\<open>Section_body\<close> (lemma \<^verbatim>\<open>Section_ReadFrom_unfold\<close>).
\<close>

definition Section_payload ::
  "(nat \<Rightarrow> Reader \<Rightarrow> (Reply option list \<times> Reader \<times> nat \<times> error option) option)
   \<Rightarrow> ResourceRecord \<Rightarrow> Reader \<Rightarrow> (Reply option \<times> Reader \<times> nat \<times> error option) option" where
  "Section_payload f rr r1 =
     (if Type rr = TypeA then
        (case IPv4_ReadFrom zero_IPv4 r1 of
           (ip, r2, i2, e2) \<Rightarrow> Some (Some (ResourceRecordA rr ip), r2, i2, e2))
      else if Type rr = TypeNS then
        do {
          (d, r2, i2, e2) \<leftarrow> Domain_ReadFrom [] r1;
          Some (Some (ResourceRecordNS rr d), r2, i2, e2)
        }
      else if Type rr = TypeCNAME then
        do {
          (d, r2, i2, e2) \<leftarrow> Domain_ReadFrom [] r1;
          Some (Some (ResourceRecordCNAME rr d), r2, i2, e2)
        }
      else if Type rr = TypeSOA then
        do {
          (s, r2, i2, e2) \<leftarrow> f 7 r1;
          Some (Some (ResourceRecordSOA rr [] [] 0 0 0 0 0), r2, i2, e2)
        }
      else if Type rr = TypePTR then
        do {
          (d, r2, i2, e2) \<leftarrow> Domain_ReadFrom [] r1;
          Some (Some (ResourceRecordPTR rr d), r2, i2, e2)
        }
      else if Type rr = TypeMX then
        do {
          (s, r2, i2, e2) \<leftarrow> f 2 r1;
          Some (Some (ResourceRecordMX rr 0 []), r2, i2, e2)
        }
      else if Type rr = TypeTXT then
        do {
          (d, r2, i2, e2) \<leftarrow> Domain_ReadFrom [] r1;
          Some (Some (ResourceRecordTXT rr d), r2, i2, e2)
        }
      else if Type rr = TypeAAAA then
        (case IPv6_ReadFrom zero_IPv6 r1 of
           (ip, r2, i2, e2) \<Rightarrow> Some (Some (ResourceRecordAAAA rr ip), r2, i2, e2))
      else
        (case io_CopyN_Discard r1 (unat (ResourceRecord.Length rr)) of
           (r2, i2, e2) \<Rightarrow> Some (None, r2, i2, e2)))"

definition Section_body ::
  "(nat \<Rightarrow> Reader \<Rightarrow> (Reply option list \<times> Reader \<times> nat \<times> error option) option)
   \<Rightarrow> nat \<Rightarrow> Reader \<Rightarrow> (Reply option list \<times> Reader \<times> nat \<times> error option) option" where
  "Section_body f k r =
     (if k = 0 then Some ([], r, 0, None)
      else
        do {
          (rr, r1, i, e) \<leftarrow> ResourceRecord_ReadFrom zero_ResourceRecord r;
          if e \<noteq> None then Some (replicate k None, r1, 0, e)
          else
            do {
              (slot, r2, i2, e2) \<leftarrow> Section_payload f rr r1;
              if e2 \<noteq> None then Some (slot # replicate (k - 1) None, r2, i, e2)
              else
                do {
                  (rest, r3, i3, e3) \<leftarrow> f (k - 1) r2;
                  Some (slot # rest, r3, i + i2 + i3, e3)
                }
            }
        })"

text \<open>The two control bytes \<^verbatim>\<open>Header.WriteTo\<close> builds.\<close>

definition control_bytes :: "Header \<Rightarrow> byte \<times> byte" where
  "control_bytes h =
     (push_bit 3 (Opcode h) OR (if IsReply h then QRBit else 0)
        OR (if IsAuthoritative h then AABit else 0) OR (if IsTruncated h then TCBit else 0)
        OR (if IsRecursionDesired h then RDBit else 0),
      ResponseCode h OR (if IsRecursionAvailable h then RABit else 0))"

text \<open>
  The records \<^verbatim>\<open>Section.ReadFrom\<close> rebuilds from their encoding: those of the six types
  whose payload it reads with the type's own reader, each carrying its own type tag,
  with well-formed names and addresses of the array's length. A message is well formed
  when its opcode and response code fit their four bits, its counts are the lengths of
  its sections, its names are well formed and its records are of that kind.
\<close>

fun wf_Reply :: "Reply \<Rightarrow> bool" where
  "wf_Reply (ResourceRecordA rr ip) = (Type rr = TypeA \<and> wf_Domain (Domain rr) \<and> length ip = 4)"
| "wf_Reply (ResourceRecordNS rr d) = (Type rr = TypeNS \<and> wf_Domain (Domain rr) \<and> wf_Domain d)"
| "wf_Reply (ResourceRecordCNAME rr d) =
     (Type rr = TypeCNAME \<and> wf_Domain (Domain rr) \<and> wf_Domain d)"
| "wf_Reply (ResourceRecordPTR rr d) = (Type rr = TypePTR \<and> wf_Domain (Domain rr) \<and> wf_Domain d)"
| "wf_Reply (ResourceRecordTXT rr d) = (Type rr = TypeTXT \<and> wf_Domain (Domain rr) \<and> wf_Domain d)"
| "wf_Reply (ResourceRecordAAAA rr ip) =
     (Type rr = TypeAAAA \<and> wf_Domain (Domain rr) \<and> length ip = 16)"
| "wf_Reply x = False"

definition wf_Message :: "Message \<Rightarrow> bool" where
  "wf_Message m =
     (Opcode (Header m) < 16 \<and> ResponseCode (Header m) < 16
      \<and> unat (QuestionCount (Header m)) = length (Question m)
      \<and> unat (AnswerCount (Header m)) = length (Answer m)
      \<and> unat (AuthorityCount (Header m)) = length (Authority m)
      \<and> unat (AdditionalCount (Header m)) = length (Additional m)
      \<and> (\<forall>q\<in>set (Question m). wf_Domain (Domain q))
      \<and> (\<forall>x\<in>set (Answer m). wf_Reply x)
      \<and> (\<forall>x\<in>set (Authority m). wf_Reply x)
      \<and> (\<forall>x\<in>set (Additional m). wf_Reply x))"

text \<open>
  Two messages: a reply with one question and one address record for \<^verbatim>\<open>example.com.\<close>,
  and a message with one mailbox record.
\<close>

definition example_com :: Domain where
  "example_com =
     [\<lparr>Label.Length = 7, Name = [0x65, 0x78, 0x61, 0x6D, 0x70, 0x6C, 0x65]\<rparr>,
      \<lparr>Label.Length = 3, Name = [0x63, 0x6F, 0x6D]\<rparr>, zero_Label]"

definition example_Message :: Message where
  "example_Message =
     \<lparr>Header = zero_Header\<lparr>ID := 0x1234, IsReply := True, IsRecursionDesired := True,
                  QuestionCount := 1, AnswerCount := 1\<rparr>,
      Question = [\<lparr>Domain = example_com, Type = TypeA, Class = 1\<rparr>],
      Answer = [ResourceRecordA
                  \<lparr>Domain = example_com, Type = TypeA, Class = 1, TimeToLive = 1, Length = 4\<rparr>
                  [1, 2, 3, 4]],
      Authority = [], Additional = []\<rparr>"

definition mailbox_Message :: Message where
  "mailbox_Message =
     \<lparr>Header = zero_Header\<lparr>ID := 0x1234, AnswerCount := 1\<rparr>,
      Question = [],
      Answer = [ResourceRecordMB
                  \<lparr>Domain = [zero_Label], Type = TypeMB, Class = 1, TimeToLive = 1, Length = 1\<rparr>
                  [zero_Label]],
      Authority = [], Additional = []\<rparr>"







text \<open>
  The name that stands at offset \<open>p\<close> of a buffer, and the offset at which its encoding
  at \<open>p\<close> ends: the empty label; a non-empty literal label followed by a name; or a
  pointer to a non-zero offset at which a name stands, whatever that name is made of.
\<close>

inductive name_at :: "byte list \<Rightarrow> nat \<Rightarrow> Domain \<Rightarrow> nat \<Rightarrow> bool" for bs where
  root: "p < length bs \<Longrightarrow> bs ! p = 0 \<Longrightarrow> name_at bs p [zero_Label] (p + 1)"
| label: "label_at bs p q \<Longrightarrow> name_at bs q nm p' \<Longrightarrow>
     name_at bs p
       (\<lparr>Label.Length = bs ! p, Name = take (unat (bs ! p)) (drop (p + 1) bs)\<rparr> # nm) p'"
| pointer: "pointer_at bs p q \<Longrightarrow> q \<noteq> 0 \<Longrightarrow> name_at bs q nm p' \<Longrightarrow>
     name_at bs p nm (p + 2)"

code_pred name_at .

text \<open>
  Twelve bytes of header, the name \<^verbatim>\<open>com.\<close> at offset 12, the name \<^verbatim>\<open>www\<close> followed by a
  pointer to offset 12 at offset 17, and a pointer to offset 17 at offset 23.
\<close>

definition www_com_bytes :: "byte list" where
  "www_com_bytes =
     [0, 0, 0, 0, 0, 0, 0, 0, 0, 0, 0, 0]
     @ [3, 0x63, 0x6F, 0x6D, 0]
     @ [3, 0x77, 0x77, 0x77, 0xC0, 0x0C]
     @ [0xC0, 0x11]"

text \<open>
  The bytes after the 12-byte header hold \<open>q\<close> questions followed by \<open>k\<close> resource
  records and nothing else: read from offset 12, they decode to that many entries with
  no error, and the cursor ends at the end of the buffer. The header declares more than
  that: more questions, where the bytes hold no record; or as many questions, and more
  records in its three record counts together (a record is decoded in the same way in
  each of the three sections).
\<close>

definition entries_serialized :: "byte list \<Rightarrow> nat \<Rightarrow> nat \<Rightarrow> bool" where
  "entries_serialized bs q k =
     (case Question_ReadFrom (replicate q zero_Query) \<lparr>data = bs, pos = 12, seekable = True\<rparr> of
        Some (qs, r2, i2, None) \<Rightarrow>
          (case Section_ReadFrom k r2 of
             Some (s, r3, i3, None) \<Rightarrow> pos r3 = length bs
           | _ \<Rightarrow> False)
      | _ \<Rightarrow> False)"





section \<open>The byte reader\<close>

lemma Reader_Read_one:
  "pos r < length (data r) \<Longrightarrow>
   Reader_Read r [x] = ([data r ! pos r], r\<lparr>pos := pos r + 1\<rparr>, 1, None)"
  by (simp add: Reader_Read_def Let_def min_def take_Suc_conv_app_nth hd_drop_conv_nth take_Suc)

lemma Reader_Read_EOF:
  "length (data r) \<le> pos r \<Longrightarrow> Reader_Read r b = (b, r, 0, Some EOF)"
  by (simp add: Reader_Read_def)

lemma io_ReadFull_ok:
  "pos r + length b \<le> length (data r) \<Longrightarrow>
   io_ReadFull r b =
     (take (length b) (drop (pos r) (data r)), r\<lparr>pos := pos r + length b\<rparr>, length b, None)"
  by (cases "b = []") (auto simp add: io_ReadFull_def Let_def min_def)

lemma Reader_Read_frame:
  "Reader_Read r b = (b', r', k, e) \<Longrightarrow>
     data r' = data r \<and> seekable r' = seekable r \<and> pos r' = pos r + k \<and> length b' = length b
     \<and> (e = None \<or> e = Some EOF)
     \<and> (e = None \<longrightarrow>
          pos r < length (data r) \<and> pos r' \<le> length (data r) \<and> (b \<noteq> [] \<longrightarrow> 0 < k))
     \<and> (e \<noteq> None \<longrightarrow> k = 0)"
  by (auto simp add: Reader_Read_def Let_def min_def split: if_splits)

lemma io_ReadFull_frame:
  "io_ReadFull r b = (b', r', k, e) \<Longrightarrow>
     data r' = data r \<and> seekable r' = seekable r \<and> pos r' = pos r + k \<and> length b' = length b
     \<and> (e = None \<or> short_read e)
     \<and> (pos r \<le> length (data r) \<longrightarrow> pos r' \<le> length (data r))
     \<and> (e = None \<longrightarrow> k = length b \<and> (b \<noteq> [] \<longrightarrow> pos r' \<le> length (data r)))"
  by (auto simp add: io_ReadFull_def Let_def min_def short_read_def split: if_splits)


lemma binary_Read16_frame:
  "binary_Read16 r x = (v, r', e) \<Longrightarrow>
     data r' = data r \<and> seekable r' = seekable r \<and> pos r \<le> pos r'
     \<and> (e = None \<or> short_read e)
     \<and> (pos r \<le> length (data r) \<longrightarrow> pos r' \<le> length (data r))
     \<and> (e = None \<longrightarrow> pos r' = pos r + 2 \<and> pos r' \<le> length (data r))"
  by (auto simp add: binary_Read16_def split: prod.splits option.splits dest!: io_ReadFull_frame)

lemma binary_Read32_frame:
  "binary_Read32 r x = (v, r', e) \<Longrightarrow>
     data r' = data r \<and> seekable r' = seekable r \<and> pos r \<le> pos r'
     \<and> (e = None \<or> short_read e)
     \<and> (pos r \<le> length (data r) \<longrightarrow> pos r' \<le> length (data r))
     \<and> (e = None \<longrightarrow> pos r' = pos r + 4 \<and> pos r' \<le> length (data r))"
  by (auto simp add: binary_Read32_def split: prod.splits option.splits dest!: io_ReadFull_frame)


lemma drop_append_facts:
  assumes "p \<le> length xs" and "drop p xs = bs @ rest"
  shows "p + length bs \<le> length xs" and "take (length bs) (drop p xs) = bs"
    and "drop (p + length bs) xs = rest"
proof -
  have "length (drop p xs) = length bs + length rest" using assms(2) by simp
  with assms(1) show "p + length bs \<le> length xs" by simp
  show "take (length bs) (drop p xs) = bs" using assms(2) by simp
  have "drop (length bs) (drop p xs) = rest" using assms(2) by simp
  then show "drop (p + length bs) xs = rest" by (simp add: add.commute)
qed

lemma drop_Cons_facts:
  assumes "drop p xs = b # rest"
  shows "p < length xs" and "xs ! p = b" and "drop (p + 1) xs = rest"
proof -
  show "p < length xs" using assms by (cases "p < length xs") auto
  then show "xs ! p = b" using assms by (metis Cons_nth_drop_Suc list.inject)
  show "drop (p + 1) xs = rest"
    using assms by (metis Suc_eq_plus1 drop_Suc drop_tl list.sel(3) tl_drop)
qed

section \<open>Labels\<close>

lemma less8_cases: "(n::nat) < 8 \<Longrightarrow> n \<in> {0, 1, 2, 3, 4, 5, 6, 7}"
  by auto

lemma byte_bit_less: "bit (b::byte) n \<Longrightarrow> n < 8"
  by (drule bit_imp_le_length) simp

lemma offset_high_bits: "(ucast (b::byte) :: 64 word) AND NOT (ucast OFBit) = ucast (b AND 0x3F)"
proof (rule bit_word_eqI)
  fix n assume "n < LENGTH(64)"
  show "bit ((ucast b :: 64 word) AND NOT (ucast OFBit)) n = bit (ucast (b AND 0x3F) :: 64 word) n"
  proof (cases "n < 8")
    case True
    then show ?thesis using less8_cases[OF True]
      by (auto simp add: bit_simps OFBit_def)
  next
    case False
    then show ?thesis by (auto simp add: bit_simps dest: byte_bit_less)
  qed
qed

lemma unat_two_bytes:
  "unat (push_bit 8 (ucast (x::byte)) OR ucast (c::byte) :: 64 word) = unat x * 256 + unat c"
proof -
  have disj: "push_bit 8 (ucast x) OR (ucast c :: 64 word) = push_bit 8 (ucast x) + ucast c"
    by (rule disjunctive_add[symmetric]) (auto simp add: bit_simps dest: byte_bit_less)
  have "unat x < 256" "unat c < 256"
    using unsigned_less[of x, where 'a=nat] unsigned_less[of c, where 'a=nat] by simp_all
  then show ?thesis unfolding disj
    by (simp add: unat_word_ariths push_bit_eq_mult unsigned_ucast_eq take_bit_nat_eq_self)
qed

lemma Label_Offset_pointer:
  "b AND OFBit = OFBit \<Longrightarrow>
   Label_Offset (l\<lparr>Label.Length := b, Name := [c]\<rparr>) = Inr (unat (b AND 0x3F) * 256 + unat c)"
  by (simp add: Label_Offset_def offset_high_bits unat_two_bytes)

lemma Label_Offset_literal:
  "Label.Length l AND OFBit \<noteq> OFBit \<Longrightarrow> Label_Offset l = Inr 0"
  by (simp add: Label_Offset_def)

lemma Label_ReadFrom_EOF:
  "length (data r) \<le> pos r \<Longrightarrow> Label_ReadFrom l r = (l, r, 0, Some EOF)"
  by (simp add: Label_ReadFrom_def Reader_Read_EOF)

lemma Label_ReadFrom_pointer:
  assumes "pos r + 1 < length (data r)" and "data r ! pos r AND OFBit = OFBit"
  shows "Label_ReadFrom l r =
    (l\<lparr>Label.Length := data r ! pos r, Name := [data r ! (pos r + 1)]\<rparr>,
     r\<lparr>pos := pos r + 2\<rparr>, 2, None)"
  using assms by (simp add: Label_ReadFrom_def Reader_Read_one Let_def)

lemma Label_ReadFrom_literal:
  assumes "pos r < length (data r)" and "data r ! pos r AND OFBit \<noteq> OFBit"
    and "pos r + 1 + unat (data r ! pos r) \<le> length (data r)"
  shows "Label_ReadFrom l r =
    (l\<lparr>Label.Length := data r ! pos r,
       Name := take (unat (data r ! pos r)) (drop (pos r + 1) (data r))\<rparr>,
     r\<lparr>pos := pos r + 1 + unat (data r ! pos r)\<rparr>, 1 + unat (data r ! pos r), None)"
  using assms by (simp add: Label_ReadFrom_def Reader_Read_one Let_def io_ReadFull_ok)

lemma Label_ReadFrom_short:
  assumes "pos r < length (data r)" and "data r ! pos r AND OFBit \<noteq> OFBit"
    and "length (data r) < pos r + 1 + unat (data r ! pos r)"
  shows "\<exists>l' r' n e. Label_ReadFrom l r = (l', r', n, e) \<and> short_read e"
  using assms
  by (auto simp add: Label_ReadFrom_def Reader_Read_one Let_def io_ReadFull_def min_def
        short_read_def)

lemma Label_ReadFrom_frame:
  assumes L: "Label_ReadFrom l r = (l', r', n, e)"
  shows "data r' = data r \<and> seekable r' = seekable r \<and> pos r \<le> pos r'
     \<and> (e = None \<or> short_read e)
     \<and> (pos r \<le> length (data r) \<longrightarrow> pos r' \<le> length (data r))
     \<and> (e = None \<longrightarrow>
          pos r < pos r' \<and> pos r' \<le> length (data r) \<and> (\<exists>k. Label_Offset l' = Inr k))"
proof -
  obtain b r1 k e1 where R1: "Reader_Read r [0] = (b, r1, k, e1)"
    by (cases "Reader_Read r [0]") auto
  note F1 = Reader_Read_frame[OF R1]
  show ?thesis
  proof (cases e1)
    case (Some x)
    with L R1 have "l' = l" "r' = r1" "e = Some x" by (simp_all add: Label_ReadFrom_def)
    with F1 Some show ?thesis by (auto simp add: short_read_def)
  next
    case None
    note e1 = None
    show ?thesis
    proof (cases "(b ! 0) AND OFBit = OFBit")
      case True
      obtain b2 r2 k2 e2 where R2: "Reader_Read r1 b = (b2, r2, k2, e2)"
        by (cases "Reader_Read r1 b") auto
      note F2 = Reader_Read_frame[OF R2]
      from F1 have lb: "length b = 1" by simp
      show ?thesis
      proof (cases e2)
        case (Some x)
        with L R1 R2 True e1 have "r' = r2" "e = Some x"
          by (simp_all add: Label_ReadFrom_def Let_def)
        with F1 F2 Some e1 show ?thesis by (auto simp add: short_read_def)
      next
        case None
        with L R1 R2 True e1
        have *: "r' = r2" "e = None" "l' = l\<lparr>Label.Length := b ! 0, Name := b2\<rparr>"
          by (simp_all add: Label_ReadFrom_def Let_def)
        from F2 lb have "b2 \<noteq> []" by auto
        then have "\<exists>k. Label_Offset l' = Inr k"
          by (cases b2) (simp_all add: * Label_Offset_def)
        with F1 F2 None e1 * show ?thesis by auto
      qed
    next
      case False
      obtain nm r2 k2 e2 where
        R2: "io_ReadFull r1 (replicate (unat (b ! 0)) 0) = (nm, r2, k2, e2)"
        by (cases "io_ReadFull r1 (replicate (unat (b ! 0)) 0)") auto
      note F2 = io_ReadFull_frame[OF R2]
      show ?thesis
      proof (cases e2)
        case (Some x)
        with L R1 R2 False e1 have "r' = r2" "e = Some x"
          by (simp_all add: Label_ReadFrom_def Let_def)
        with F1 F2 Some e1 show ?thesis by (auto simp add: short_read_def)
      next
        case None
        with L R1 R2 False e1
        have *: "r' = r2" "e = None" "l' = l\<lparr>Label.Length := b ! 0, Name := nm\<rparr>"
          by (simp_all add: Label_ReadFrom_def Let_def)
        from False have "\<exists>k. Label_Offset l' = Inr k"
          by (simp add: * Label_Offset_def)
        with F1 F2 None e1 * show ?thesis by auto
      qed
    qed
  qed
qed

lemma Label_ReadFrom_WriteTo:
  assumes wf: "wf_Label l" and D: "drop (pos r) (data r) = Label_WriteTo l @ rest"
  shows "Label_ReadFrom zero_Label r =
           (l, r\<lparr>pos := pos r + length (Label_WriteTo l)\<rparr>, length (Label_WriteTo l), None)"
proof -
  from D have D': "drop (pos r) (data r) = Label.Length l # (Name l @ rest)"
    by (simp add: Label_WriteTo_def)
  note C = drop_Cons_facts[OF D']
  from C(1) have le: "pos r + 1 \<le> length (data r)" by simp
  note A = drop_append_facts[OF le C(3)]
  have "Label_ReadFrom zero_Label r =
    (zero_Label\<lparr>Label.Length := data r ! pos r,
       Name := take (unat (data r ! pos r)) (drop (pos r + 1) (data r))\<rparr>,
     r\<lparr>pos := pos r + 1 + unat (data r ! pos r)\<rparr>, 1 + unat (data r ! pos r), None)"
    using wf C A(1) by (intro Label_ReadFrom_literal) (simp_all add: wf_Label_def)
  moreover have "zero_Label\<lparr>Label.Length := data r ! pos r,
       Name := take (unat (data r ! pos r)) (drop (pos r + 1) (data r))\<rparr> = l"
    using wf C(2) A(2) by (cases l) (simp add: wf_Label_def zero_Label_def)
  ultimately show ?thesis using wf C(2) by (simp add: Label_WriteTo_def wf_Label_def)
qed

section \<open>Names\<close>

lemma Domain_ReadFrom_frame_aux:
  assumes A: "Domain_ReadFrom d r = Some res"
  shows "frame_ok 1 r (fst (snd res)) (snd (snd (snd res)))"
proof (induct rule: Domain_ReadFrom.raw_induct[OF _ A])
  case (1 f d r res)
  obtain label r1 n1 e1 where L: "Label_ReadFrom zero_Label r = (label, r1, n1, e1)"
    by (cases "Label_ReadFrom zero_Label r") auto
  note F1 = Label_ReadFrom_frame[OF L]
  show ?case
  proof (cases e1)
    case (Some x)
    with 1(2) L have "res = (d, r1, n1, Some x)" by simp
    with F1 Some show ?thesis by (auto simp add: frame_ok_def)
  next
    case None
    with F1 obtain off where O: "Label_Offset label = Inr off" by auto
    show ?thesis
    proof (cases "off \<noteq> 0")
      case True
      show ?thesis
      proof (cases "seekable r1")
        case False
        with 1(2) L None O True have "res = (d, r1, n1, Some ErrCantSeek)" by simp
        with F1 None False show ?thesis by (auto simp add: frame_ok_def)
      next
        case sk: True
        with 1(2) L None O True obtain d2 r2 i2 e2 where
          rec: "f d (r1\<lparr>pos := off\<rparr>) = Some (d2, r2, i2, e2)"
          and res: "res = (d2, r2\<lparr>pos := pos r1\<rparr>, n1, None)"
          by (auto simp add: bind_eq_Some_conv)
        from 1(1)[OF rec] have "data r2 = data r1" "seekable r2 = seekable r1"
          by (simp_all add: frame_ok_def)
        with F1 None res show ?thesis by (auto simp add: frame_ok_def)
      qed
    next
      case False
      show ?thesis
      proof (cases "Label.Length label = 0")
        case True
        with 1(2) L None O False have "res = (d @ [label], r1, n1, None)" by simp
        with F1 None show ?thesis by (auto simp add: frame_ok_def)
      next
        case nz: False
        with 1(2) L None O False obtain d2 r2 i2 e2 where
          rec: "f (d @ [label]) r1 = Some (d2, r2, i2, e2)"
          and res: "res = (d2, r2, if e2 = None then n1 + i2 else n1, e2)"
          by (auto simp add: bind_eq_Some_conv)
        from 1(1)[OF rec] have "frame_ok 1 r1 r2 e2" by simp
        with F1 None res show ?thesis by (auto simp add: frame_ok_def)
      qed
    qed
  qed
qed

lemma Domain_ReadFrom_frame:
  "Domain_ReadFrom d r = Some (d', r', n, e) \<Longrightarrow> frame_ok 1 r r' e"
  using Domain_ReadFrom_frame_aux[of d r "(d', r', n, e)"] by simp

lemma Domain_ReadFrom_WriteTo:
  assumes "wf_Domain nm" and "drop (pos r) (data r) = Domain_WriteTo nm @ rest"
  shows "Domain_ReadFrom d r =
           Some (d @ nm, r\<lparr>pos := pos r + length (Domain_WriteTo nm)\<rparr>,
                 length (Domain_WriteTo nm), None)"
  using assms
proof (induction nm arbitrary: d r rule: wf_Domain.induct)
  case 1
  then show ?case by simp
next
  case (2 l)
  then have l: "l = zero_Label" by simp
  have wl: "wf_Label l" by (simp add: l wf_Label_def zero_Label_def OFBit_def)
  from 2(2) have D: "drop (pos r) (data r) = Label_WriteTo l @ rest"
    by (simp add: Domain_WriteTo_def)
  have off: "Label_Offset l = Inr 0"
    by (rule Label_Offset_literal) (use wl in \<open>simp add: wf_Label_def\<close>)
  show ?case
    by (subst Domain_ReadFrom.simps)
       (simp add: Label_ReadFrom_WriteTo[OF wl D] off Domain_WriteTo_def,
        simp add: l zero_Label_def)
next
  case (3 l l' ls)
  then have wl: "wf_Label l" and nz: "Label.Length l \<noteq> 0" and wr: "wf_Domain (l' # ls)"
    by simp_all
  from 3(3) have D: "drop (pos r) (data r) = Label_WriteTo l @ (Domain_WriteTo (l' # ls) @ rest)"
    by (simp add: Domain_WriteTo_def)
  from D have "pos r < length (data r)"
    by (cases "pos r < length (data r)") (auto simp add: Label_WriteTo_def)
  then have le: "pos r \<le> length (data r)" by simp
  note A = drop_append_facts[OF le D]
  have off: "Label_Offset l = Inr 0"
    by (rule Label_Offset_literal) (use wl in \<open>simp add: wf_Label_def\<close>)
  let ?r1 = "r\<lparr>pos := pos r + length (Label_WriteTo l)\<rparr>"
  have D1: "drop (pos ?r1) (data ?r1) = Domain_WriteTo (l' # ls) @ rest" using A(3) by simp
  note IH = 3(1)[OF wr D1, of "d @ [l]"]
  show ?case
    by (subst Domain_ReadFrom.simps)
       (simp add: Label_ReadFrom_WriteTo[OF wl D] off nz IH, simp add: Domain_WriteTo_def)
qed

lemma name_loop_never_returns:
  assumes A: "Domain_ReadFrom d r = Some res"
  shows "\<not> (seekable r \<and> name_loop (data r) S \<and> pos r \<in> S)"
proof (induct rule: Domain_ReadFrom.raw_induct[OF _ A])
  case (1 f d r res)
  show ?case
  proof
    assume H: "seekable r \<and> name_loop (data r) S \<and> pos r \<in> S"
    then obtain q where q: "q \<in> S" and
      step: "(pointer_at (data r) (pos r) q \<and> q \<noteq> 0) \<or> label_at (data r) (pos r) q"
      by (auto simp add: name_loop_def)
    from step show False
    proof
      assume P: "pointer_at (data r) (pos r) q \<and> q \<noteq> 0"
      with 1(2) H obtain y where "f d (r\<lparr>pos := pos r + 2, pos := q\<rparr>) = Some y"
        by (auto simp add: pointer_at_def Label_ReadFrom_pointer Label_Offset_pointer
                 bind_eq_Some_conv)
      from 1(1)[OF this] H q show False by simp
    next
      assume Lb: "label_at (data r) (pos r) q"
      with 1(2) H obtain d' y where "f d' (r\<lparr>pos := q\<rparr>) = Some y"
        by (auto simp add: label_at_def Label_ReadFrom_literal Label_Offset_literal
                 bind_eq_Some_conv zero_Label_def)
      from 1(1)[OF this] H q show False by simp
    qed
  qed
qed

lemma Domain_ReadFrom_pointer:
  assumes "seekable r" and "pointer_at (data r) (pos r) q" and "q \<noteq> 0"
  shows "Domain_ReadFrom d r =
     Domain_ReadFrom d (r\<lparr>pos := q\<rparr>) \<bind>
       (\<lambda>(d2, r2, i, e2). Some (d2, r2\<lparr>pos := pos r + 2\<rparr>, 2, None))"
  using assms
  by (subst Domain_ReadFrom.simps)
     (simp add: pointer_at_def Label_ReadFrom_pointer Label_Offset_pointer)

lemma Domain_ReadFrom_EOF:
  "length (data r) \<le> pos r \<Longrightarrow> Domain_ReadFrom d r = Some (d, r, 0, Some EOF)"
  by (subst Domain_ReadFrom.simps) (simp add: Label_ReadFrom_EOF)

lemma name_at_advances: "name_at bs p nm p' \<Longrightarrow> p < p'"
  by (induction rule: name_at.induct) (auto simp add: label_at_def)

lemma Domain_ReadFrom_name_at:
  assumes "name_at bs p nm p'" and "data r = bs" and "pos r = p" and "seekable r"
  shows "Domain_ReadFrom d r = Some (d @ nm, r\<lparr>pos := p'\<rparr>, p' - p, None)"
  using assms
proof (induction arbitrary: d r rule: name_at.induct)
  case (root p)
  then have L: "Label_ReadFrom zero_Label r =
      (zero_Label\<lparr>Label.Length := 0, Name := []\<rparr>, r\<lparr>pos := pos r + 1\<rparr>, 1, None)"
    using Label_ReadFrom_literal[of r zero_Label] by (simp add: OFBit_def)
  have O: "Label_Offset (zero_Label\<lparr>Label.Length := 0, Name := []\<rparr>) = Inr 0"
    by (rule Label_Offset_literal) (simp add: OFBit_def)
  have Z: "zero_Label\<lparr>Label.Length := 0, Name := []\<rparr> = zero_Label" by (simp add: zero_Label_def)
  have Z0: "Label.Length zero_Label = 0" by (simp add: zero_Label_def)
  from root show ?case
    by (subst Domain_ReadFrom.simps) (simp add: L[unfolded Z] O[unfolded Z] Z0)
next
  case (label p q nm p')
  define l where "l = \<lparr>Label.Length = bs ! p, Name = take (unat (bs ! p)) (drop (p + 1) bs)\<rparr>"
  from label.hyps(1) label.prems have L: "Label_ReadFrom zero_Label r = (l, r\<lparr>pos := q\<rparr>, q - p, None)"
    using Label_ReadFrom_literal[of r zero_Label]
    by (simp add: label_at_def l_def zero_Label_def)
  from label.hyps(1) have O: "Label_Offset l = Inr 0" and nz: "Label.Length l \<noteq> 0"
    by (simp_all add: Label_Offset_literal label_at_def l_def)
  have R: "Domain_ReadFrom (d @ [l]) (r\<lparr>pos := q\<rparr>) =
             Some ((d @ [l]) @ nm, r\<lparr>pos := q\<rparr>\<lparr>pos := p'\<rparr>, p' - q, None)"
    by (rule label.IH) (use label.prems in simp_all)
  from label.hyps(1) have "p < q" by (simp add: label_at_def)
  moreover from name_at_advances[OF label.hyps(2)] have "q < p'" .
  ultimately have "q - p + (p' - q) = p' - p" by simp
  then show ?case
    unfolding l_def[symmetric]
    by (subst Domain_ReadFrom.simps) (simp add: L O nz R)
next
  case (pointer p q nm p')
  have R: "Domain_ReadFrom d (r\<lparr>pos := q\<rparr>) =
             Some (d @ nm, r\<lparr>pos := q\<rparr>\<lparr>pos := p'\<rparr>, p' - q, None)"
    by (rule pointer.IH) (use pointer.prems in simp_all)
  from pointer.hyps(1,2) pointer.prems have
    "Domain_ReadFrom d r =
       Domain_ReadFrom d (r\<lparr>pos := q\<rparr>) \<bind>
         (\<lambda>(d2, r2, i, e2). Some (d2, r2\<lparr>pos := pos r + 2\<rparr>, 2, None))"
    by (intro Domain_ReadFrom_pointer) simp_all
  with R pointer.prems show ?case by simp
qed

lemma wf_Domain_name_at:
  assumes "wf_Domain nm" and "drop q bs = Domain_WriteTo nm @ rest"
  shows "name_at bs q nm (q + length (Domain_WriteTo nm))"
  using assms
proof (induction nm arbitrary: q rule: wf_Domain.induct)
  case 1
  then show ?case by simp
next
  case (2 l)
  then have l: "l = zero_Label" by simp
  from 2(2) have D: "drop q bs = 0 # rest"
    by (simp add: l Domain_WriteTo_def Label_WriteTo_def zero_Label_def)
  then have "q < length bs" by (cases "q < length bs") auto
  moreover from D this have "bs ! q = 0" by (metis nth_via_drop)
  ultimately show ?case
    using name_at.root[of q bs] by (simp add: l Domain_WriteTo_def Label_WriteTo_def zero_Label_def)
next
  case (3 l l' ls)
  then have wl: "wf_Label l" and nz: "Label.Length l \<noteq> 0" and wr: "wf_Domain (l' # ls)"
    by simp_all
  from 3(3) have D: "drop q bs = Label.Length l # Name l @ (Domain_WriteTo (l' # ls) @ rest)"
    by (simp add: Domain_WriteTo_def Label_WriteTo_def)
  then have ql: "q < length bs" by (cases "q < length bs") auto
  from D have b: "bs ! q = Label.Length l" by (metis nth_via_drop)
  from D have "drop (Suc q) bs = Name l @ (Domain_WriteTo (l' # ls) @ rest)"
    by (metis drop_Suc list.sel(3) tl_drop)
  then have N: "drop (q + 1) bs = Name l @ (Domain_WriteTo (l' # ls) @ rest)" by simp
  from wl have len: "unat (Label.Length l) = length (Name l)" by (simp add: wf_Label_def)
  from N have tk: "take (unat (Label.Length l)) (drop (q + 1) bs) = Name l" by (simp add: len)
  from N have "length (drop (q + 1) bs) \<ge> length (Name l)" by simp
  then have fit: "q + 1 + length (Name l) \<le> length bs" using ql by simp
  from N have D2: "drop (q + 1 + length (Name l)) bs = Domain_WriteTo (l' # ls) @ rest"
    by (metis add.commute append_eq_conv_conj drop_drop)
  have LA: "label_at bs q (q + 1 + length (Name l))"
    using ql b wl nz fit len by (simp add: label_at_def wf_Label_def)
  from 3(1)[OF wr D2] have
    "name_at bs (q + 1 + length (Name l)) (l' # ls)
       (q + 1 + length (Name l) + length (Domain_WriteTo (l' # ls)))" .
  note step = name_at.label[OF LA this]
  have leq: "\<lparr>Label.Length = bs ! q, Name = take (unat (bs ! q)) (drop (q + 1) bs)\<rparr> = l"
    unfolding b tk by simp
  from step[unfolded leq] show ?case
    by (simp add: Domain_WriteTo_def Label_WriteTo_def add.assoc)
qed

section \<open>Names: compression pointers\<close>

text \<open>
  Claim C2, as the code has it. \<^verbatim>\<open>Domain.ReadFrom\<close> has no bound on the pointers it
  follows and no compression-loop error: on a seekable reader whose cursor stands in a
  loop of names (a pointer to itself, or any chain of pointers and literal labels that
  leads back into the chain) the call never returns.
\<close>

theorem Domain_ReadFrom_name_loop:
  assumes "seekable r" and "name_loop (data r) S" and "pos r \<in> S"
  shows "Domain_ReadFrom d r = None"
proof (cases "Domain_ReadFrom d r")
  case None
  then show ?thesis .
next
  case (Some res)
  from name_loop_never_returns[OF Some, of S] assms show ?thesis by simp
qed

text \<open>
  A two-step loop after a 12-byte header: the label \<^verbatim>\<open>a\<close> at offset 12, then a pointer
  at offset 14 back to offset 12.
\<close>

theorem Domain_ReadFrom_name_loop_witness:
  "seekable
     \<lparr>data = [0, 0, 0, 0, 0, 0, 0, 0, 0, 0, 0, 0, 1, 0x61, 0xC0, 0x0C], pos = 12,
      seekable = True\<rparr>
   \<and> name_loop [0, 0, 0, 0, 0, 0, 0, 0, 0, 0, 0, 0, 1, 0x61, 0xC0, 0x0C] {12, 14}
   \<and> Domain_ReadFrom []
        \<lparr>data = [0, 0, 0, 0, 0, 0, 0, 0, 0, 0, 0, 0, 1, 0x61, 0xC0, 0x0C], pos = 12,
         seekable = True\<rparr>
       = None"
proof -
  have L: "name_loop [0, 0, 0, 0, 0, 0, 0, 0, 0, 0, 0, 0, 1, 0x61, 0xC0, 0x0C] {12, 14}"
    by (simp add: name_loop_def pointer_at_def label_at_def OFBit_def)
  show ?thesis
    using L Domain_ReadFrom_name_loop[of
      "\<lparr>data = [0, 0, 0, 0, 0, 0, 0, 0, 0, 0, 0, 0, 1, 0x61, 0xC0, 0x0C], pos = 12,
        seekable = True\<rparr>"
      "{12, 14}" "[]"]
    by simp
qed

text \<open>
  The claim as the specification states it fails: a name that is a pointer to itself
  (offset 12, after a 12-byte header) is decoded by a call that never returns, so it
  returns no error of any kind.
\<close>

theorem Domain_ReadFrom_self_pointer_counterexample:
  "Domain_ReadFrom []
     \<lparr>data = [0, 0, 0, 0, 0, 0, 0, 0, 0, 0, 0, 0, 0xC0, 0x0C], pos = 12, seekable = True\<rparr>
   = None"
proof (cases "Domain_ReadFrom []
     \<lparr>data = [0, 0, 0, 0, 0, 0, 0, 0, 0, 0, 0, 0, 0xC0, 0x0C], pos = 12, seekable = True\<rparr>")
  case None
  then show ?thesis .
next
  case (Some res)
  have "name_loop [0, 0, 0, 0, 0, 0, 0, 0, 0, 0, 0, 0, 0xC0, 0x0C] {12}"
    by (simp add: name_loop_def pointer_at_def OFBit_def)
  with name_loop_never_returns[OF Some, of "{12}"] show ?thesis by simp
qed

text \<open>
  Claim C4, as the code has it. On a seekable reader whose cursor stands on a
  compression pointer with a non-zero offset \<open>q\<close>, where a name stands at \<open>q\<close> (labels
  ended by the empty label, or by a pointer to a non-zero offset where a name stands
  again), \<^verbatim>\<open>Domain.ReadFrom\<close> appends that name to the domain, following the pointers
  inside it, reports no error and leaves the cursor 2 bytes past the start of the
  pointer.
\<close>

theorem Domain_ReadFrom_follows_pointer:
  assumes "seekable r" and "pointer_at (data r) (pos r) q" and "q \<noteq> 0"
    and "name_at (data r) q nm p'"
  shows "Domain_ReadFrom d r = Some (d @ nm, r\<lparr>pos := pos r + 2\<rparr>, 2, None)"
proof -
  from assms(1) have "Domain_ReadFrom d (r\<lparr>pos := q\<rparr>) =
          Some (d @ nm, r\<lparr>pos := q\<rparr>\<lparr>pos := p'\<rparr>, p' - q, None)"
    by (intro Domain_ReadFrom_name_at[OF assms(4)]) simp_all
  then show ?thesis
    by (simp add: Domain_ReadFrom_pointer[OF assms(1-3)])
qed

text \<open>
  The pointer at offset 23 leads to \<^verbatim>\<open>www\<close> and a second pointer, which leads to \<^verbatim>\<open>com.\<close>:
  the call returns \<^verbatim>\<open>www.com.\<close> with the cursor at 25.
\<close>

theorem Domain_ReadFrom_follows_pointer_witness:
  "pointer_at www_com_bytes 23 17
   \<and> name_at www_com_bytes 17
        [\<lparr>Label.Length = 3, Name = [0x77, 0x77, 0x77]\<rparr>,
         \<lparr>Label.Length = 3, Name = [0x63, 0x6F, 0x6D]\<rparr>, zero_Label] 23
   \<and> Domain_ReadFrom [] \<lparr>data = www_com_bytes, pos = 23, seekable = True\<rparr>
       = Some ([\<lparr>Label.Length = 3, Name = [0x77, 0x77, 0x77]\<rparr>,
                \<lparr>Label.Length = 3, Name = [0x63, 0x6F, 0x6D]\<rparr>, zero_Label],
               \<lparr>data = www_com_bytes, pos = 25, seekable = True\<rparr>, 2, None)"
proof -
  have R: "name_at www_com_bytes 16 [zero_Label] 17"
    using name_at.root[of 16 www_com_bytes] by (simp add: www_com_bytes_def)
  have C: "name_at www_com_bytes 12 [\<lparr>Label.Length = 3, Name = [0x63, 0x6F, 0x6D]\<rparr>, zero_Label] 17"
    using name_at.label[OF _ R, of 12]
    by (simp add: label_at_def OFBit_def www_com_bytes_def)
  have Q: "name_at www_com_bytes 21 [\<lparr>Label.Length = 3, Name = [0x63, 0x6F, 0x6D]\<rparr>, zero_Label] 23"
    using name_at.pointer[OF _ _ C, of 21]
    by (simp add: pointer_at_def OFBit_def www_com_bytes_def)
  have W: "name_at www_com_bytes 17
        [\<lparr>Label.Length = 3, Name = [0x77, 0x77, 0x77]\<rparr>,
         \<lparr>Label.Length = 3, Name = [0x63, 0x6F, 0x6D]\<rparr>, zero_Label] 23"
    using name_at.label[OF _ Q, of 17]
    by (simp add: label_at_def OFBit_def www_com_bytes_def)
  have P: "pointer_at www_com_bytes 23 17"
    by (simp add: pointer_at_def OFBit_def www_com_bytes_def)
  from Domain_ReadFrom_follows_pointer[of "\<lparr>data = www_com_bytes, pos = 23, seekable = True\<rparr>"
      17 _ 23 "[]"] P W
  show ?thesis by simp
qed

text \<open>
  The claim as the specification states it fails at offset 0. The byte at offset 0 is
  the encoding of the root name, and the pointer \<^verbatim>\<open>C0 00\<close> at offset 1 points at it; the
  call does not produce the root name: it keeps the two bytes as a label and reads on,
  here into the end of the buffer.
\<close>

theorem Domain_ReadFrom_pointer_to_zero_counterexample:
  "Domain_ReadFrom [] \<lparr>data = [0, 0xC0, 0], pos = 1, seekable = True\<rparr> =
     Some ([\<lparr>Label.Length = 0xC0, Name = [0]\<rparr>],
           \<lparr>data = [0, 0xC0, 0], pos = 3, seekable = True\<rparr>, 2, Some EOF)"
  by (subst Domain_ReadFrom.simps)
     (simp add: Label_ReadFrom_pointer OFBit_def zero_Label_def Label_Offset_def
        Domain_ReadFrom_EOF)

text \<open>
  Claim C10. A name that begins with the bytes \<^verbatim>\<open>C0 00\<close> is not followed as a pointer:
  the two bytes are kept as a label with length tag \<^verbatim>\<open>C0\<close>, and the decoder reads the
  following labels from the cursor just past them.
\<close>

theorem Domain_ReadFrom_pointer_zero_is_label:
  assumes "pos r + 1 < length (data r)" and "data r ! pos r = 0xC0"
    and "data r ! (pos r + 1) = 0"
  shows "Domain_ReadFrom d r =
    Domain_ReadFrom (d @ [\<lparr>Label.Length = 0xC0, Name = [0]\<rparr>]) (r\<lparr>pos := pos r + 2\<rparr>) \<bind>
      (\<lambda>(d2, r2, i, e2). Some (d2, r2, if e2 = None then 2 + i else 2, e2))"
  using assms
  by (subst Domain_ReadFrom.simps)
     (simp add: Label_ReadFrom_pointer OFBit_def zero_Label_def Label_Offset_def)

text \<open>The bytes \<^verbatim>\<open>C0 00 00\<close> decode to a name of two labels, 3 bytes long.\<close>

theorem Domain_ReadFrom_pointer_zero_is_label_witness:
  "Domain_ReadFrom [] (NewReader [0xC0, 0, 0]) =
     Some ([\<lparr>Label.Length = 0xC0, Name = [0]\<rparr>, \<lparr>Label.Length = 0, Name = []\<rparr>],
           \<lparr>data = [0xC0, 0, 0], pos = 3, seekable = True\<rparr>, 3, None)"
proof -
  have "Domain_ReadFrom [\<lparr>Label.Length = 0xC0, Name = [0]\<rparr>]
          \<lparr>data = [0xC0, 0, 0], pos = 2, seekable = True\<rparr> =
        Some ([\<lparr>Label.Length = 0xC0, Name = [0]\<rparr>, \<lparr>Label.Length = 0, Name = []\<rparr>],
           \<lparr>data = [0xC0, 0, 0], pos = 3, seekable = True\<rparr>, 1, None)"
    by (subst Domain_ReadFrom.simps)
       (simp add: Label_ReadFrom_literal OFBit_def zero_Label_def Label_Offset_literal)
  then show ?thesis
    using Domain_ReadFrom_pointer_zero_is_label[of "NewReader [0xC0, 0, 0]" "[]"]
    by (simp add: NewReader_def numeral_2_eq_2)
qed

section \<open>Labels: the reserved bits\<close>

text \<open>
  Claim C5, as the code has it. \<^verbatim>\<open>Label.ReadFrom\<close> has no format error. A length byte
  with exactly one of its two top bits set is a literal length: the label is the
  following bytes, that many, and the call fails only with a short read, when fewer
  bytes are left.
\<close>

theorem Label_ReadFrom_one_reserved_bit:
  assumes "pos r < length (data r)" and "b = data r ! pos r"
    and "b AND OFBit = 0x40 \<or> b AND OFBit = 0x80"
  shows "if pos r + 1 + unat b \<le> length (data r)
         then Label_ReadFrom l r =
                (l\<lparr>Label.Length := b, Name := take (unat b) (drop (pos r + 1) (data r))\<rparr>,
                 r\<lparr>pos := pos r + 1 + unat b\<rparr>, 1 + unat b, None)
         else (\<exists>l' r' n e. Label_ReadFrom l r = (l', r', n, e) \<and> short_read e)"
proof -
  from assms(3) have nb: "b AND OFBit \<noteq> OFBit" by (auto simp add: OFBit_def)
  show ?thesis
  proof (cases "pos r + 1 + unat b \<le> length (data r)")
    case True
    then show ?thesis using assms(1,2) nb by (simp add: Label_ReadFrom_literal)
  next
    case False
    then show ?thesis using assms(1,2) nb Label_ReadFrom_short[of r l] by simp
  qed
qed

theorem Label_ReadFrom_one_reserved_bit_witness:
  "Label_ReadFrom zero_Label (NewReader (0x80 # replicate 128 0x61)) =
     (\<lparr>Label.Length = 0x80, Name = replicate 128 0x61\<rparr>,
      \<lparr>data = 0x80 # replicate 128 0x61, pos = 129, seekable = True\<rparr>, 129, None)"
  using Label_ReadFrom_one_reserved_bit[of "NewReader (0x80 # replicate 128 0x61)" "0x80" zero_Label]
  by (simp add: NewReader_def OFBit_def zero_Label_def)

text \<open>
  The claim as the specification states it fails: the length byte \<^verbatim>\<open>41\<close> (bit pattern
  01000001) followed by 65 bytes is read as a label of 65 bytes, with no error.
\<close>

theorem Label_ReadFrom_one_reserved_bit_counterexample:
  "Label_ReadFrom zero_Label (NewReader (0x41 # replicate 65 0x61)) =
    (\<lparr>Label.Length = 0x41, Name = replicate 65 0x61\<rparr>,
     \<lparr>data = 0x41 # replicate 65 0x61, pos = 66, seekable = True\<rparr>, 66, None)"
  by (simp add: Label_ReadFrom_literal NewReader_def OFBit_def zero_Label_def)

section \<open>The header's control bytes\<close>

text \<open>
  Claim C6. The control bytes \<^verbatim>\<open>81 80\<close> decode as the claim says, with response code
  0. The response code is not bits 0 to 3 of the second control byte: the decoder clears
  bit 7 only, so with the control bytes \<^verbatim>\<open>81 A3\<close> (bit 5 set, low bits 3) the decoded
  response code is 35, and \<^verbatim>\<open>Message.Error\<close> finds no entry for it.
\<close>

theorem Header_ReadFrom_response_code:
  "Header_ReadFrom zero_Header (NewReader [0x12, 0x34, 0x81, 0x80, 0, 0, 0, 0, 0, 0, 0, 0]) =
     (zero_Header\<lparr>ID := 0x1234, IsReply := True, IsRecursionDesired := True,
        IsRecursionAvailable := True\<rparr>,
      \<lparr>data = [0x12, 0x34, 0x81, 0x80, 0, 0, 0, 0, 0, 0, 0, 0], pos = 12, seekable = True\<rparr>,
      12, None)
   \<and> ResponseCode (fst (Header_ReadFrom zero_Header
        (NewReader [0x12, 0x34, 0x81, 0xA3, 0, 0, 0, 0, 0, 0, 0, 0]))) = 35
   \<and> errors 35 = None"
  by (simp add: Header_ReadFrom_def NewReader_def binary_Read16_def io_ReadFull_def
        Reader_Read_def Let_def zero_Header_def QRBit_def AABit_def TCBit_def RDBit_def
        RABit_def errors_def CodeNoError_def CodeFormatError_def CodeServerFailure_def
        CodeNameError_def CodeNotImplemented_def CodeRefused_def)

section \<open>Questions and response codes of a message\<close>

text \<open>
  Claim C8, as the code has it. \<^verbatim>\<open>AddQuery\<close> appends the query and adds one to the
  16-bit question count; the count stays equal to the number of questions as long as
  there were fewer than 65535 of them.
\<close>

theorem AddQuery_count:
  "Question (AddQuery m q) = Question m @ [q]
   \<and> QuestionCount (Header (AddQuery m q)) = QuestionCount (Header m) + 1
   \<and> (unat (QuestionCount (Header m)) = length (Question m) \<and> length (Question m) < 65535
        \<longrightarrow> unat (QuestionCount (Header (AddQuery m q))) = length (Question (AddQuery m q)))"
  by (simp add: AddQuery_def unat_word_ariths)

theorem AddQuery_count_witness:
  "unat (QuestionCount (Header zero_Message)) = length (Question zero_Message)
   \<and> length (Question zero_Message) < 65535
   \<and> unat (QuestionCount (Header (AddQuery zero_Message zero_Query))) =
       length (Question (AddQuery zero_Message zero_Query))"
  using AddQuery_count[of zero_Message zero_Query]
  by (simp add: zero_Message_def zero_Header_def)

text \<open>
  The claim as the specification states it fails at the top of the 16-bit range: with
  65535 questions and a count of 65535, the count after \<^verbatim>\<open>AddQuery\<close> is 0 and the number
  of questions is 65536.
\<close>

theorem AddQuery_count_counterexample:
  "unat (QuestionCount (Header
      (zero_Message\<lparr>Question := replicate 65535 zero_Query,
                     Header := zero_Header\<lparr>QuestionCount := 65535\<rparr>\<rparr>)))
     = length (Question
      (zero_Message\<lparr>Question := replicate 65535 zero_Query,
                     Header := zero_Header\<lparr>QuestionCount := 65535\<rparr>\<rparr>))
   \<and> unat (QuestionCount (Header (AddQuery
      (zero_Message\<lparr>Question := replicate 65535 zero_Query,
                     Header := zero_Header\<lparr>QuestionCount := 65535\<rparr>\<rparr>) zero_Query)))
     \<noteq> length (Question (AddQuery
      (zero_Message\<lparr>Question := replicate 65535 zero_Query,
                     Header := zero_Header\<lparr>QuestionCount := 65535\<rparr>\<rparr>) zero_Query))"
  by (simp add: AddQuery_def zero_Message_def zero_Header_def)

text \<open>
  Claim C9. For a message whose response code is above 5, \<^verbatim>\<open>Message.Error\<close> returns nil.
\<close>

theorem Message_Error_unknown_code:
  "5 < unat (ResponseCode (Header m)) \<Longrightarrow> Message_Error m = None"
  by (auto simp add: Message_Error_def errors_def CodeNoError_def CodeFormatError_def
      CodeServerFailure_def CodeNameError_def CodeNotImplemented_def CodeRefused_def)

theorem Message_Error_unknown_code_witness:
  "5 < unat (ResponseCode (Header (zero_Message\<lparr>Header := zero_Header\<lparr>ResponseCode := 9\<rparr>\<rparr>)))
   \<and> Message_Error (zero_Message\<lparr>Header := zero_Header\<lparr>ResponseCode := 9\<rparr>\<rparr>) = None"
  using Message_Error_unknown_code[of "zero_Message\<lparr>Header := zero_Header\<lparr>ResponseCode := 9\<rparr>\<rparr>"]
  by simp

section \<open>Integers, queries and the common prefix of a record\<close>

lemma BigEndian_Uint16_PutUint16: "BigEndian_Uint16 (BigEndian_PutUint16 v @ rest) = v"
  unfolding BigEndian_PutUint16_def
  apply simp
  apply (rule bit_word_eqI)
  apply (auto simp add: bit_simps)
  done

lemma BigEndian_Uint32_PutUint32: "BigEndian_Uint32 (BigEndian_PutUint32 v @ rest) = v"
proof -
  have "ucast (ucast v :: byte) OR push_bit 8 (ucast (ucast (drop_bit 8 v) :: byte))
          OR push_bit 16 (ucast (ucast (drop_bit 16 v) :: byte))
          OR push_bit 24 (ucast (ucast (drop_bit 24 v) :: byte)) = v"
  proof (rule bit_word_eqI)
    fix n assume "n < LENGTH(32)"
    then consider "n < 8" | "8 \<le> n \<and> n < 16" | "16 \<le> n \<and> n < 24" | "24 \<le> n \<and> n < 32"
      by fastforce
    then show "bit ((ucast (ucast v :: byte) :: 32 word)
          OR push_bit 8 (ucast (ucast (drop_bit 8 v) :: byte))
          OR push_bit 16 (ucast (ucast (drop_bit 16 v) :: byte))
          OR push_bit 24 (ucast (ucast (drop_bit 24 v) :: byte))) n = bit v n"
      by cases (auto simp add: bit_simps)
  qed
  then show ?thesis by (simp add: BigEndian_PutUint32_def)
qed

lemma length_PutUint16 [simp]: "length (BigEndian_PutUint16 v) = 2"
  by (simp add: BigEndian_PutUint16_def)

lemma length_PutUint32 [simp]: "length (BigEndian_PutUint32 v) = 4"
  by (simp add: BigEndian_PutUint32_def)

lemma binary_Read16_WriteTo:
  assumes "drop (pos r) (data r) = BigEndian_PutUint16 v @ rest"
  shows "binary_Read16 r x = (v, r\<lparr>pos := pos r + 2\<rparr>, None)"
proof -
  from assms have "pos r < length (data r)"
    by (cases "pos r < length (data r)") (auto simp add: BigEndian_PutUint16_def)
  then have le: "pos r \<le> length (data r)" by simp
  note A = drop_append_facts[OF le assms]
  from A(1) have "pos r + length (replicate 2 (0::byte)) \<le> length (data r)"
    by simp
  from io_ReadFull_ok[OF this] A(2)
  have "io_ReadFull r (replicate 2 0) = (BigEndian_PutUint16 v, r\<lparr>pos := pos r + 2\<rparr>, 2, None)"
    by simp
  then show ?thesis
    using BigEndian_Uint16_PutUint16[of v "[]"] by (simp add: binary_Read16_def)
qed

lemma binary_Read32_WriteTo:
  assumes "drop (pos r) (data r) = BigEndian_PutUint32 v @ rest"
  shows "binary_Read32 r x = (v, r\<lparr>pos := pos r + 4\<rparr>, None)"
proof -
  from assms have "pos r < length (data r)"
    by (cases "pos r < length (data r)") (auto simp add: BigEndian_PutUint32_def)
  then have le: "pos r \<le> length (data r)" by simp
  note A = drop_append_facts[OF le assms]
  from A(1) have "pos r + length (replicate 4 (0::byte)) \<le> length (data r)"
    by simp
  from io_ReadFull_ok[OF this] A(2)
  have "io_ReadFull r (replicate 4 0) = (BigEndian_PutUint32 v, r\<lparr>pos := pos r + 4\<rparr>, 4, None)"
    by simp
  then show ?thesis
    using BigEndian_Uint32_PutUint32[of v "[]"] by (simp add: binary_Read32_def)
qed

lemma binary_ReadBytes_ok:
  assumes "pos r \<le> length (data r)" and "drop (pos r) (data r) = bs @ rest" and "length x = length bs"
  shows "binary_ReadBytes r x = (bs, r\<lparr>pos := pos r + length bs\<rparr>, None)"
proof -
  note A = drop_append_facts[OF assms(1,2)]
  from A(1) have "pos r + length (replicate (length x) (0::byte)) \<le> length (data r)"
    by (simp add: assms(3))
  from io_ReadFull_ok[OF this] A(2) show ?thesis
    by (simp add: binary_ReadBytes_def assms(3))
qed

lemma drop_pos_advance:
  assumes "pos r \<le> length (data r)" and "drop (pos r) (data r) = bs @ rest"
  shows "drop (pos (r\<lparr>pos := pos r + length bs\<rparr>)) (data (r\<lparr>pos := pos r + length bs\<rparr>)) = rest"
    and "pos (r\<lparr>pos := pos r + length bs\<rparr>) \<le> length (data (r\<lparr>pos := pos r + length bs\<rparr>))"
  using drop_append_facts[OF assms] by simp_all

lemma Query_ReadFrom_WriteTo:
  assumes wf: "wf_Domain (Domain q)" and le: "pos r \<le> length (data r)"
    and D: "drop (pos r) (data r) = Query_WriteTo q @ rest"
  shows "Query_ReadFrom q0 r =
           Some (q0\<lparr>Domain := Domain q0 @ Domain q, Type := Type q, Class := Class q\<rparr>,
                 r\<lparr>pos := pos r + length (Query_WriteTo q)\<rparr>, length (Query_WriteTo q), None)"
proof -
  let ?dn = "Domain_WriteTo (Domain q)"
  from D have D0: "drop (pos r) (data r) =
      ?dn @ (BigEndian_PutUint16 (Type q) @ BigEndian_PutUint16 (Class q) @ rest)"
    by (simp add: Query_WriteTo_def)
  let ?r1 = "r\<lparr>pos := pos r + length ?dn\<rparr>"
  have R1: "Domain_ReadFrom (Domain q0) r = Some (Domain q0 @ Domain q, ?r1, length ?dn, None)"
    by (rule Domain_ReadFrom_WriteTo[OF wf D0])
  note P1 = drop_pos_advance[OF le D0]
  have R2: "binary_Read16 ?r1 x = (Type q, ?r1\<lparr>pos := pos ?r1 + 2\<rparr>, None)" for x
    by (rule binary_Read16_WriteTo[OF P1(1)])
  let ?r2 = "?r1\<lparr>pos := pos ?r1 + 2\<rparr>"
  have D2: "drop (pos ?r2) (data ?r2) = BigEndian_PutUint16 (Class q) @ rest"
    using drop_pos_advance(1)[OF P1(2) P1(1)] by simp
  have R3: "binary_Read16 ?r2 x = (Class q, ?r2\<lparr>pos := pos ?r2 + 2\<rparr>, None)" for x
    by (rule binary_Read16_WriteTo[OF D2])
  show ?thesis
    by (simp add: Query_ReadFrom_def R1 R2[simplified] R3[simplified] Let_def)
       (simp add: Query_WriteTo_def)
qed

lemma ResourceRecord_ReadFrom_WriteTo:
  assumes wf: "wf_Domain (Domain rr)" and le: "pos r \<le> length (data r)"
    and D: "drop (pos r) (data r) = ResourceRecord_WriteTo rr @ rest"
  shows "ResourceRecord_ReadFrom zero_ResourceRecord r =
           Some (rr, r\<lparr>pos := pos r + length (ResourceRecord_WriteTo rr)\<rparr>,
                 length (ResourceRecord_WriteTo rr), None)"
proof -
  let ?q = "Query_WriteTo rr"
  from D have D0: "drop (pos r) (data r) =
      ?q @ (BigEndian_PutUint32 (TimeToLive rr) @ BigEndian_PutUint16 (ResourceRecord.Length rr) @ rest)"
    by (simp add: ResourceRecord_WriteTo_def)
  let ?r1 = "r\<lparr>pos := pos r + length ?q\<rparr>"
  note R1 = Query_ReadFrom_WriteTo[OF wf le D0, of zero_ResourceRecord]
  note P1 = drop_pos_advance[OF le D0]
  have R2: "binary_Read32 ?r1 x = (TimeToLive rr, ?r1\<lparr>pos := pos ?r1 + 4\<rparr>, None)" for x
    by (rule binary_Read32_WriteTo[OF P1(1)])
  let ?r2 = "?r1\<lparr>pos := pos ?r1 + 4\<rparr>"
  have D2: "drop (pos ?r2) (data ?r2) = BigEndian_PutUint16 (ResourceRecord.Length rr) @ rest"
    using drop_pos_advance(1)[OF P1(2) P1(1)] by simp
  have R3: "binary_Read16 ?r2 x = (ResourceRecord.Length rr, ?r2\<lparr>pos := pos ?r2 + 2\<rparr>, None)" for x
    by (rule binary_Read16_WriteTo[OF D2])
  show ?thesis
    by (simp add: ResourceRecord_ReadFrom_def R1 R2[simplified] R3[simplified] Let_def)
       (cases rr, simp add: ResourceRecord_WriteTo_def zero_ResourceRecord_def)
qed

section \<open>Frames of the record readers\<close>

lemma frame_ok_trans:
  "frame_ok a r r1 None \<Longrightarrow> frame_ok b r1 r2 e \<Longrightarrow> 0 < a \<Longrightarrow> frame_ok (a + b) r r2 e"
  by (auto simp add: frame_ok_def)

lemma frame_ok_error:
  "frame_ok a r r1 None \<Longrightarrow> frame_ok b r1 r2 (Some x) \<Longrightarrow> frame_ok c r r2 (Some x)"
  by (auto simp add: frame_ok_def)

lemma frame_ok_weaken: "frame_ok a r r' e \<Longrightarrow> b \<le> a \<Longrightarrow> 0 < b \<or> a = 0 \<Longrightarrow> frame_ok b r r' e"
  by (auto simp add: frame_ok_def)

lemma binary_Read16_frame_ok: "binary_Read16 r x = (v, r', e) \<Longrightarrow> frame_ok 2 r r' e"
  by (drule binary_Read16_frame) (auto simp add: frame_ok_def)

lemma binary_Read32_frame_ok: "binary_Read32 r x = (v, r', e) \<Longrightarrow> frame_ok 4 r r' e"
  by (drule binary_Read32_frame) (auto simp add: frame_ok_def)

lemma Query_ReadFrom_frame:
  assumes Q: "Query_ReadFrom q r = Some (q', r', n, e)"
  shows "frame_ok 5 r r' e"
proof -
  from Q obtain d r1 n1 e1 where D: "Domain_ReadFrom (Domain q) r = Some (d, r1, n1, e1)"
    by (auto simp add: Query_ReadFrom_def bind_eq_Some_conv)
  note F1 = Domain_ReadFrom_frame[OF D]
  show ?thesis
  proof (cases e1)
    case (Some x)
    with Q D have "r' = r1" "e = Some x" by (simp_all add: Query_ReadFrom_def Let_def)
    with F1 Some show ?thesis by (auto simp add: frame_ok_def)
  next
    case None
    note e1 = None
    obtain t r2 e2 where T: "binary_Read16 r1 (Type q) = (t, r2, e2)"
      by (cases "binary_Read16 r1 (Type q)") auto
    note F2 = binary_Read16_frame_ok[OF T]
    show ?thesis
    proof (cases e2)
      case (Some x)
      with Q D T e1 have "r' = r2" "e = Some x" by (simp_all add: Query_ReadFrom_def Let_def)
      with F1 F2 e1 Some show ?thesis by (auto simp add: frame_ok_def)
    next
      case None
      note e2 = None
      obtain c r3 e3 where C: "binary_Read16 r2 (Class q) = (c, r3, e3)"
        by (cases "binary_Read16 r2 (Class q)") auto
      note F3 = binary_Read16_frame_ok[OF C]
      from Q D T C e1 e2 have "r' = r3" "e = e3"
        by (auto simp add: Query_ReadFrom_def Let_def split: option.splits)
      with F1 F2 F3 e1 e2 show ?thesis by (auto simp add: frame_ok_def)
    qed
  qed
qed

lemma ResourceRecord_ReadFrom_frame:
  assumes Q: "ResourceRecord_ReadFrom rr r = Some (rr', r', n, e)"
  shows "frame_ok 11 r r' e"
proof -
  from Q obtain q r1 n1 e1 where D: "Query_ReadFrom rr r = Some (q, r1, n1, e1)"
    by (auto simp add: ResourceRecord_ReadFrom_def bind_eq_Some_conv)
  note F1 = Query_ReadFrom_frame[OF D]
  show ?thesis
  proof (cases e1)
    case (Some x)
    with Q D have "r' = r1" "e = Some x" by (simp_all add: ResourceRecord_ReadFrom_def Let_def)
    with F1 Some show ?thesis by (auto simp add: frame_ok_def)
  next
    case None
    note e1 = None
    obtain t r2 e2 where T: "binary_Read32 r1 (TimeToLive q) = (t, r2, e2)"
      by (cases "binary_Read32 r1 (TimeToLive q)") auto
    note F2 = binary_Read32_frame_ok[OF T]
    show ?thesis
    proof (cases e2)
      case (Some x)
      with Q D T e1 have "r' = r2" "e = Some x" by (simp_all add: ResourceRecord_ReadFrom_def Let_def)
      with F1 F2 e1 Some show ?thesis by (auto simp add: frame_ok_def)
    next
      case None
      note e2 = None
      obtain c r3 e3 where C: "binary_Read16 r2 (ResourceRecord.Length q) = (c, r3, e3)"
        by (cases "binary_Read16 r2 (ResourceRecord.Length q)") auto
      note F3 = binary_Read16_frame_ok[OF C]
      from Q D T C e1 e2 have "r' = r3" "e = e3"
        by (auto simp add: ResourceRecord_ReadFrom_def Let_def split: option.splits)
      with F1 F2 F3 e1 e2 show ?thesis by (auto simp add: frame_ok_def)
    qed
  qed
qed




lemma Section_ReadFrom_unfold: "Section_ReadFrom k r = Section_body Section_ReadFrom k r"
  unfolding Section_body_def Section_payload_def by (rule Section_ReadFrom.simps)






section \<open>The header round trip\<close>

lemma flag_test_iff:
  assumes "n < 8"
  shows "((b::byte) AND push_bit n 1 = push_bit n 1) = bit b n"
proof
  assume "b AND push_bit n 1 = push_bit n 1"
  then have "bit (b AND push_bit n 1) n = bit (push_bit n 1 :: byte) n" by simp
  with assms show "bit b n" by (simp add: bit_simps)
next
  assume "bit b n"
  then show "b AND push_bit n 1 = push_bit n 1"
    by (intro bit_word_eqI) (auto simp add: bit_simps)
qed

lemma flag_tests:
  "((b::byte) AND QRBit = QRBit) = bit b 7" "((b::byte) AND AABit = AABit) = bit b 2"
  "((b::byte) AND TCBit = TCBit) = bit b 1" "((b::byte) AND RDBit = RDBit) = bit b 0"
  "((b::byte) AND RABit = RABit) = bit b 7"
  unfolding QRBit_def AABit_def TCBit_def RDBit_def RABit_def
  by (simp_all only: flag_test_iff)

lemma small_byte_bits:
  assumes "(w::byte) < 2 ^ k"
  shows "bit w n \<longleftrightarrow> n < k \<and> bit w n"
proof -
  from assms have "w AND mask k = w" by (rule less_mask_eq)
  then have "bit w n = bit (w AND mask k) n" by simp
  then show ?thesis by (auto simp add: bit_simps)
qed

lemma flag_bits:
  "bit QRBit n = (n = 7)" "bit AABit n = (n = 2)" "bit TCBit n = (n = 1)" "bit RDBit n = (n = 0)"
  "bit RABit n = (n = 7)"
proof -
  have cases8: "n < 8 \<or> \<not> n < 8" by simp
  show "bit QRBit n = (n = 7)" "bit AABit n = (n = 2)" "bit TCBit n = (n = 1)"
    "bit RDBit n = (n = 0)" "bit RABit n = (n = 7)"
    using cases8
    by (auto simp add: QRBit_def AABit_def TCBit_def RDBit_def RABit_def bit_1_iff
          dest!: less8_cases dest: byte_bit_less)
qed

lemma control_byte_0:
  fixes op :: byte
  assumes "op < 16"
    and b0_def: "b0 = push_bit 3 op OR (if qr then QRBit else 0) OR (if aa then AABit else 0)
                  OR (if tc then TCBit else 0) OR (if rd then RDBit else 0)"
  shows "(b0 AND QRBit = QRBit) = qr" "(b0 AND AABit = AABit) = aa" "(b0 AND TCBit = TCBit) = tc"
    "(b0 AND RDBit = RDBit) = rd" "drop_bit 3 (b0 AND NOT QRBit) = op"
proof -
  from assms(1) have "op < 2 ^ 4" by simp
  note ob = small_byte_bits[OF this]
  have b: "bit b0 n = ((3 \<le> n \<and> n < 8 \<and> bit op (n - 3)) \<or> (qr \<and> n = 7) \<or> (aa \<and> n = 2)
            \<or> (tc \<and> n = 1) \<or> (rd \<and> n = 0))" for n
    unfolding b0_def by (auto simp add: bit_simps flag_bits)
  show "(b0 AND QRBit = QRBit) = qr" using ob[of 4] by (simp add: flag_tests b)
  show "(b0 AND AABit = AABit) = aa" by (simp add: flag_tests b)
  show "(b0 AND TCBit = TCBit) = tc" by (simp add: flag_tests b)
  show "(b0 AND RDBit = RDBit) = rd" by (simp add: flag_tests b)
  show "drop_bit 3 (b0 AND NOT QRBit) = op"
  proof (rule bit_word_eqI)
    fix n assume "n < LENGTH(8)"
    then show "bit (drop_bit 3 (b0 AND NOT QRBit)) n = bit op n"
      using ob[of n] by (auto simp add: bit_simps flag_bits b)
  qed
qed

lemma control_byte_1:
  fixes rc :: byte
  assumes "rc < 128" and b1_def: "b1 = rc OR (if ra then RABit else 0)"
  shows "(b1 AND RABit = RABit) = ra" "b1 AND NOT RABit = rc"
proof -
  from assms(1) have "rc < 2 ^ 7" by simp
  note ob = small_byte_bits[OF this]
  have b: "bit b1 n = (bit rc n \<or> (ra \<and> n = 7))" for n
    unfolding b1_def by (auto simp add: bit_simps flag_bits)
  show "(b1 AND RABit = RABit) = ra" using ob[of 7] by (simp add: flag_tests b)
  show "b1 AND NOT RABit = rc"
  proof (rule bit_word_eqI)
    fix n assume "n < LENGTH(8)"
    then show "bit (b1 AND NOT RABit) n = bit rc n"
      using ob[of n] by (auto simp add: bit_simps flag_bits b)
  qed
qed

lemma Header_WriteTo_control:
  "Header_WriteTo h =
     BigEndian_PutUint16 (ID h) @ [fst (control_bytes h), snd (control_bytes h)]
       @ BigEndian_PutUint16 (QuestionCount h) @ BigEndian_PutUint16 (AnswerCount h)
       @ BigEndian_PutUint16 (AuthorityCount h) @ BigEndian_PutUint16 (AdditionalCount h)"
  by (simp add: Header_WriteTo_def control_bytes_def Let_def ac_simps)

lemma length_Header_WriteTo [simp]: "length (Header_WriteTo h) = 12"
  by (simp add: Header_WriteTo_control)

lemma Reader_Read_two:
  assumes "drop (pos r) (data r) = a # b # rest"
  shows "Reader_Read r [x, y] = ([a, b], r\<lparr>pos := pos r + 2\<rparr>, 2, None)"
proof -
  from assms have "length (drop (pos r) (data r)) = 2 + length rest" by simp
  then have "pos r + 2 \<le> length (data r)" by simp
  with assms show ?thesis
    by (simp add: Reader_Read_def Let_def min_def)
qed

lemma Header_ReadFrom_WriteTo:
  assumes op: "Opcode h < 16" and rc: "ResponseCode h < 128"
    and le: "pos r \<le> length (data r)"
    and D: "drop (pos r) (data r) = Header_WriteTo h @ rest"
  shows "Header_ReadFrom zero_Header r = (h, r\<lparr>pos := pos r + 12\<rparr>, 12, None)"
proof -
  obtain b0 b1 where cb: "control_bytes h = (b0, b1)" by (cases "control_bytes h") auto
  note c0 = control_byte_0[OF op, of b0 "IsReply h" "IsAuthoritative h" "IsTruncated h"
      "IsRecursionDesired h"]
  note c1 = control_byte_1[OF rc, of b1 "IsRecursionAvailable h"]
  from cb have b0: "b0 = push_bit 3 (Opcode h) OR (if IsReply h then QRBit else 0)
        OR (if IsAuthoritative h then AABit else 0) OR (if IsTruncated h then TCBit else 0)
        OR (if IsRecursionDesired h then RDBit else 0)"
    and b1: "b1 = ResponseCode h OR (if IsRecursionAvailable h then RABit else 0)"
    by (simp_all add: control_bytes_def)
  let ?t1 = "[b0, b1] @ BigEndian_PutUint16 (QuestionCount h) @ BigEndian_PutUint16 (AnswerCount h)
       @ BigEndian_PutUint16 (AuthorityCount h) @ BigEndian_PutUint16 (AdditionalCount h) @ rest"
  from D cb have D0: "drop (pos r) (data r) = BigEndian_PutUint16 (ID h) @ ?t1"
    by (simp add: Header_WriteTo_control)
  have R1: "binary_Read16 r x = (ID h, r\<lparr>pos := pos r + 2\<rparr>, None)" for x
    by (rule binary_Read16_WriteTo[OF D0])
  have D1: "drop (pos r + 2) (data r) = ?t1"
    using drop_append_facts(3)[OF le D0] by (simp add: eval_nat_numeral)
  have R2: "Reader_Read (r\<lparr>pos := pos r + 2\<rparr>) [0, 0] = ([b0, b1], r\<lparr>pos := pos r + 4\<rparr>, 2, None)"
    using Reader_Read_two[of "r\<lparr>pos := pos r + 2\<rparr>" b0 b1 _ 0 0] D1 by (simp add: eval_nat_numeral)
  have le2: "pos r + 2 \<le> length (data r)" using drop_append_facts(1)[OF le D0] by (simp add: eval_nat_numeral)
  have D2: "drop (pos r + 4) (data r) = BigEndian_PutUint16 (QuestionCount h) @
       BigEndian_PutUint16 (AnswerCount h) @ BigEndian_PutUint16 (AuthorityCount h) @
       BigEndian_PutUint16 (AdditionalCount h) @ rest"
    using drop_append_facts(3)[OF le2, of "[b0, b1]"] D1 by (simp add: eval_nat_numeral)
  have R3: "binary_Read16 (r\<lparr>pos := pos r + 4\<rparr>) x = (QuestionCount h, r\<lparr>pos := pos r + 6\<rparr>, None)" for x
    using binary_Read16_WriteTo[of "r\<lparr>pos := pos r + 4\<rparr>"] D2 by (simp add: eval_nat_numeral)
  have le4: "pos r + 4 \<le> length (data r)"
    using drop_append_facts(1)[OF le2, of "[b0, b1]"] D1 by (simp add: eval_nat_numeral)
  have D3: "drop (pos r + 6) (data r) = 
       BigEndian_PutUint16 (AnswerCount h) @ BigEndian_PutUint16 (AuthorityCount h) @
       BigEndian_PutUint16 (AdditionalCount h) @ rest"
    using drop_append_facts(3)[OF le4 D2] by (simp add: eval_nat_numeral)
  have R4: "binary_Read16 (r\<lparr>pos := pos r + 6\<rparr>) x = (AnswerCount h, r\<lparr>pos := pos r + 8\<rparr>, None)" for x
    using binary_Read16_WriteTo[of "r\<lparr>pos := pos r + 6\<rparr>"] D3 by (simp add: eval_nat_numeral)
  have le6: "pos r + 6 \<le> length (data r)"
    using drop_append_facts(1)[OF le4 D2] by (simp add: eval_nat_numeral)
  have D4: "drop (pos r + 8) (data r) = BigEndian_PutUint16 (AuthorityCount h) @
       BigEndian_PutUint16 (AdditionalCount h) @ rest"
    using drop_append_facts(3)[OF le6 D3] by (simp add: eval_nat_numeral)
  have R5: "binary_Read16 (r\<lparr>pos := pos r + 8\<rparr>) x = (AuthorityCount h, r\<lparr>pos := pos r + 10\<rparr>, None)" for x
    using binary_Read16_WriteTo[of "r\<lparr>pos := pos r + 8\<rparr>"] D4 by (simp add: eval_nat_numeral)
  have le8: "pos r + 8 \<le> length (data r)"
    using drop_append_facts(1)[OF le6 D3] by (simp add: eval_nat_numeral)
  have D5: "drop (pos r + 10) (data r) = BigEndian_PutUint16 (AdditionalCount h) @ rest"
    using drop_append_facts(3)[OF le8 D4] by (simp add: eval_nat_numeral)
  have R6: "binary_Read16 (r\<lparr>pos := pos r + 10\<rparr>) x = (AdditionalCount h, r\<lparr>pos := pos r + 12\<rparr>, None)" for x
    using binary_Read16_WriteTo[of "r\<lparr>pos := pos r + 10\<rparr>"] D5 by (simp add: eval_nat_numeral)
  have "Header_ReadFrom zero_Header r =
          (\<lparr>ID = ID h, IsReply = IsReply h, Opcode = Opcode h,
            IsAuthoritative = IsAuthoritative h, IsTruncated = IsTruncated h,
            IsRecursionDesired = IsRecursionDesired h,
            IsRecursionAvailable = IsRecursionAvailable h, ResponseCode = ResponseCode h,
            QuestionCount = QuestionCount h, AnswerCount = AnswerCount h,
            AuthorityCount = AuthorityCount h, AdditionalCount = AdditionalCount h\<rparr>,
           r\<lparr>pos := pos r + 12\<rparr>, 12, None)"
    unfolding Header_ReadFrom_def
    by (simp add: R1[simplified] R2[simplified] R3 R4 R5 R6 Let_def c0(1-4)[OF b0]
          c0(5)[OF b0, simplified] c1[OF b1] zero_Header_def)
  then show ?thesis by simp
qed

section \<open>The round trip of a message\<close>

lemmas Type_defs = TypeA_def TypeNS_def TypeCNAME_def TypeSOA_def TypePTR_def TypeMX_def
  TypeTXT_def TypeAAAA_def

lemma payload_Domain:
  assumes wf: "wf_Domain (Domain rr)" and wd: "wf_Domain d" and le: "pos r \<le> length (data r)"
    and D: "drop (pos r) (data r) = (ResourceRecord_WriteTo rr @ Domain_WriteTo d) @ rest"
  shows "ResourceRecord_ReadFrom zero_ResourceRecord r =
           Some (rr, r\<lparr>pos := pos r + length (ResourceRecord_WriteTo rr)\<rparr>,
                 length (ResourceRecord_WriteTo rr), None)"
    and "Domain_ReadFrom [] (r\<lparr>pos := pos r + length (ResourceRecord_WriteTo rr)\<rparr>) =
           Some (d, r\<lparr>pos := pos r + length (ResourceRecord_WriteTo rr @ Domain_WriteTo d)\<rparr>,
                 length (Domain_WriteTo d), None)"
proof -
  from D have D0: "drop (pos r) (data r) = ResourceRecord_WriteTo rr @ (Domain_WriteTo d @ rest)"
    by simp
  show "ResourceRecord_ReadFrom zero_ResourceRecord r =
           Some (rr, r\<lparr>pos := pos r + length (ResourceRecord_WriteTo rr)\<rparr>,
                 length (ResourceRecord_WriteTo rr), None)"
    by (rule ResourceRecord_ReadFrom_WriteTo[OF wf le D0])
  note P = drop_pos_advance[OF le D0]
  from Domain_ReadFrom_WriteTo[OF wd P(1), of "[]"]
  show "Domain_ReadFrom [] (r\<lparr>pos := pos r + length (ResourceRecord_WriteTo rr)\<rparr>) =
           Some (d, r\<lparr>pos := pos r + length (ResourceRecord_WriteTo rr @ Domain_WriteTo d)\<rparr>,
                 length (Domain_WriteTo d), None)"
    by (simp add: add.assoc)
qed

lemma payload_IP:
  assumes wf: "wf_Domain (Domain rr)" and le: "pos r \<le> length (data r)"
    and D: "drop (pos r) (data r) = (ResourceRecord_WriteTo rr @ ip) @ rest"
    and l: "length x = length ip"
  shows "ResourceRecord_ReadFrom zero_ResourceRecord r =
           Some (rr, r\<lparr>pos := pos r + length (ResourceRecord_WriteTo rr)\<rparr>,
                 length (ResourceRecord_WriteTo rr), None)"
    and "binary_ReadBytes (r\<lparr>pos := pos r + length (ResourceRecord_WriteTo rr)\<rparr>) x =
           (ip, r\<lparr>pos := pos r + length (ResourceRecord_WriteTo rr @ ip)\<rparr>, None)"
proof -
  from D have D0: "drop (pos r) (data r) = ResourceRecord_WriteTo rr @ (ip @ rest)"
    by simp
  show "ResourceRecord_ReadFrom zero_ResourceRecord r =
           Some (rr, r\<lparr>pos := pos r + length (ResourceRecord_WriteTo rr)\<rparr>,
                 length (ResourceRecord_WriteTo rr), None)"
    by (rule ResourceRecord_ReadFrom_WriteTo[OF wf le D0])
  note P = drop_pos_advance[OF le D0]
  from binary_ReadBytes_ok[OF P(2) P(1) l]
  show "binary_ReadBytes (r\<lparr>pos := pos r + length (ResourceRecord_WriteTo rr)\<rparr>) x =
           (ip, r\<lparr>pos := pos r + length (ResourceRecord_WriteTo rr @ ip)\<rparr>, None)"
    by (simp add: add.assoc)
qed

lemma Reply_round_trip:
  assumes wf: "wf_Reply x" and le: "pos r \<le> length (data r)"
    and W: "Reply_WriteTo x = Inr b" and D: "drop (pos r) (data r) = b @ rest"
  shows "\<exists>rr r1 n1 i2.
           ResourceRecord_ReadFrom zero_ResourceRecord r = Some (rr, r1, n1, None)
           \<and> Section_payload f rr r1 = Some (Some x, r\<lparr>pos := pos r + length b\<rparr>, i2, None)
           \<and> n1 + i2 = length b"
proof (cases x)
  case (ResourceRecordA rr ip)
  with wf W D have t: "Type rr = TypeA" and wd: "wf_Domain (Domain rr)"
    and l: "length zero_IPv4 = length ip" and li: "length ip = 4"
    and b: "b = ResourceRecord_WriteTo rr @ ip"
    by (auto simp add: zero_IPv4_def)
  note P = payload_IP[OF wd le D[unfolded b] l]
  show ?thesis
    by (simp add: P Section_payload_def t IPv4_ReadFrom_def ResourceRecordA b li)
next
  case (ResourceRecordNS rr d)
  with wf W D have t: "Type rr = TypeNS" and wd: "wf_Domain (Domain rr)" "wf_Domain d"
    and b: "b = ResourceRecord_WriteTo rr @ Domain_WriteTo d"
    by auto
  note P = payload_Domain[OF wd le D[unfolded b]]
  show ?thesis
    by (simp add: P Section_payload_def t ResourceRecordNS b) (simp add: Type_defs)
next
  case (ResourceRecordCNAME rr d)
  with wf W D have t: "Type rr = TypeCNAME" and wd: "wf_Domain (Domain rr)" "wf_Domain d"
    and b: "b = ResourceRecord_WriteTo rr @ Domain_WriteTo d"
    by auto
  note P = payload_Domain[OF wd le D[unfolded b]]
  show ?thesis
    by (simp add: P Section_payload_def t ResourceRecordCNAME b) (simp add: Type_defs)
next
  case (ResourceRecordPTR rr d)
  with wf W D have t: "Type rr = TypePTR" and wd: "wf_Domain (Domain rr)" "wf_Domain d"
    and b: "b = ResourceRecord_WriteTo rr @ Domain_WriteTo d"
    by auto
  note P = payload_Domain[OF wd le D[unfolded b]]
  show ?thesis
    by (simp add: P Section_payload_def t ResourceRecordPTR b) (simp add: Type_defs)
next
  case (ResourceRecordTXT rr d)
  with wf W D have t: "Type rr = TypeTXT" and wd: "wf_Domain (Domain rr)" "wf_Domain d"
    and b: "b = ResourceRecord_WriteTo rr @ Domain_WriteTo d"
    by auto
  note P = payload_Domain[OF wd le D[unfolded b]]
  show ?thesis
    by (simp add: P Section_payload_def t ResourceRecordTXT b) (simp add: Type_defs)
next
  case (ResourceRecordAAAA rr ip)
  with wf W D have t: "Type rr = TypeAAAA" and wd: "wf_Domain (Domain rr)"
    and l: "length zero_IPv6 = length ip" and li: "length ip = 16"
    and b: "b = ResourceRecord_WriteTo rr @ ip"
    by (auto simp add: zero_IPv6_def)
  note P = payload_IP[OF wd le D[unfolded b] l]
  show ?thesis
    by (simp add: P Section_payload_def t IPv6_ReadFrom_def ResourceRecordAAAA b li)
       (simp add: Type_defs)
qed (use wf in simp_all)

lemma wf_Reply_WriteTo: "wf_Reply x \<Longrightarrow> \<exists>b. Reply_WriteTo x = Inr b"
  by (cases x) simp_all

lemma Section_WriteTo_Nil [simp]: "Section_WriteTo [] = Inr []"
  by (simp add: Section_WriteTo_def)

lemma Section_WriteTo_Cons:
  "Reply_WriteTo x = Inr b \<Longrightarrow>
   Section_WriteTo (x # xs) = (case Section_WriteTo xs of Inl e \<Rightarrow> Inl e | Inr bs \<Rightarrow> Inr (b @ bs))"
  by (simp add: Section_WriteTo_def)

lemma wf_Section_WriteTo: "\<forall>x\<in>set s. wf_Reply x \<Longrightarrow> \<exists>bs. Section_WriteTo s = Inr bs"
proof (induction s)
  case Nil
  then show ?case by simp
next
  case (Cons x xs)
  then obtain b bs where "Reply_WriteTo x = Inr b" "Section_WriteTo xs = Inr bs"
    using wf_Reply_WriteTo[of x] by auto
  then show ?case by (simp add: Section_WriteTo_Cons)
qed

lemma Section_round_trip:
  assumes "\<forall>x\<in>set s. wf_Reply x" and "pos r \<le> length (data r)"
    and "Section_WriteTo s = Inr bs" and "drop (pos r) (data r) = bs @ rest"
  shows "Section_ReadFrom (length s) r =
           Some (map Some s, r\<lparr>pos := pos r + length bs\<rparr>, length bs, None)"
  using assms
proof (induction s arbitrary: r bs)
  case Nil
  then show ?case by (subst Section_ReadFrom_unfold) (simp add: Section_body_def)
next
  case (Cons x xs)
  from Cons(2) have wx: "wf_Reply x" and wxs: "\<forall>x\<in>set xs. wf_Reply x" by simp_all
  from wf_Reply_WriteTo[OF wx] obtain b where b: "Reply_WriteTo x = Inr b" by auto
  from wf_Section_WriteTo[OF wxs] obtain cs where cs: "Section_WriteTo xs = Inr cs" by auto
  from Cons(4) b cs have bs: "bs = b @ cs" by (simp add: Section_WriteTo_Cons)
  from Cons(5) bs have D: "drop (pos r) (data r) = b @ (cs @ rest)" by simp
  from Reply_round_trip[OF wx Cons(3) b D, of Section_ReadFrom]
  obtain rr r1 n1 i2 where
    R: "ResourceRecord_ReadFrom zero_ResourceRecord r = Some (rr, r1, n1, None)"
    and P: "Section_payload Section_ReadFrom rr r1 =
              Some (Some x, r\<lparr>pos := pos r + length b\<rparr>, i2, None)"
    and n: "n1 + i2 = length b"
    by auto
  note A = drop_pos_advance[OF Cons(3) D]
  from Cons.IH[OF wxs A(2) cs A(1)]
  have N: "Section_ReadFrom (length xs) (r\<lparr>pos := pos r + length b\<rparr>) =
             Some (map Some xs, r\<lparr>pos := pos r + length b + length cs\<rparr>, length cs, None)"
    by simp
  show ?case
    by (subst Section_ReadFrom_unfold) (simp add: Section_body_def R P N bs n add.assoc)
qed

lemma Question_round_trip:
  assumes "\<forall>q\<in>set qs. wf_Domain (Domain q)" and "pos r \<le> length (data r)"
    and "drop (pos r) (data r) = Question_WriteTo qs @ rest"
  shows "Question_ReadFrom (replicate (length qs) zero_Query) r =
           Some (qs, r\<lparr>pos := pos r + length (Question_WriteTo qs)\<rparr>,
                 length (Question_WriteTo qs), None)"
  using assms
proof (induction qs arbitrary: r)
  case Nil
  then show ?case by (simp add: Question_WriteTo_def)
next
  case (Cons q qs)
  from Cons(2) have wq: "wf_Domain (Domain q)" and wqs: "\<forall>q\<in>set qs. wf_Domain (Domain q)"
    by simp_all
  from Cons(4) have D: "drop (pos r) (data r) = Query_WriteTo q @ (Question_WriteTo qs @ rest)"
    by (simp add: Question_WriteTo_def)
  have Q: "Query_ReadFrom zero_Query r =
             Some (q, r\<lparr>pos := pos r + length (Query_WriteTo q)\<rparr>, length (Query_WriteTo q), None)"
    using Query_ReadFrom_WriteTo[OF wq Cons(3) D, of zero_Query]
    by (cases q) (simp add: zero_Query_def)
  note A = drop_pos_advance[OF Cons(3) D]
  from Cons.IH[OF wqs A(2) A(1)]
  have N: "Question_ReadFrom (replicate (length qs) zero_Query)
             (r\<lparr>pos := pos r + length (Query_WriteTo q)\<rparr>) =
           Some (qs, r\<lparr>pos := pos r + length (Query_WriteTo q) + length (Question_WriteTo qs)\<rparr>,
                 length (Question_WriteTo qs), None)"
    by simp
  show ?case
    by (simp add: Q N) (simp add: Question_WriteTo_def add.assoc)
qed

lemma made_Section_map_Some [simp]: "made_Section (map Some s) = s"
  by (induction s) (simp_all add: made_Section_def)

text \<open>
  Claim C1, as the code has it. For every well-formed message (records of the six types
  \<^verbatim>\<open>Section.ReadFrom\<close> reads with their own readers: address, name-server,
  canonical-name, pointer, text, IPv6 address; well-formed uncompressed names; counts
  equal to the section lengths; opcode and response code within four bits), encoding
  succeeds and decoding the bytes into a fresh message gives the message back, field for
  field; the error \<^verbatim>\<open>UnmarshalBinary\<close> returns is the one of the response code.
\<close>

theorem Message_round_trip:
  assumes wf: "wf_Message m"
  shows "\<exists>bs. MarshalBinary m = Inr bs
              \<and> UnmarshalBinary zero_Message bs = Some (m, Message_Error m)"
proof -
  let ?h = "Header m"
  from wf have op: "Opcode ?h < 16" and rc: "ResponseCode ?h < 128"
    and cq: "unat (QuestionCount ?h) = length (Question m)"
    and c1: "unat (AnswerCount ?h) = length (Answer m)"
    and c2: "unat (AuthorityCount ?h) = length (Authority m)"
    and c3: "unat (AdditionalCount ?h) = length (Additional m)"
    and wq: "\<forall>q\<in>set (Question m). wf_Domain (Domain q)"
    and w1: "\<forall>x\<in>set (Answer m). wf_Reply x"
    and w2: "\<forall>x\<in>set (Authority m). wf_Reply x"
    and w3: "\<forall>x\<in>set (Additional m). wf_Reply x"
    by (auto simp add: wf_Message_def elim: order_less_trans)
  from wf_Section_WriteTo[OF w1] obtain a1 where a1: "Section_WriteTo (Answer m) = Inr a1" by auto
  from wf_Section_WriteTo[OF w2] obtain a2 where a2: "Section_WriteTo (Authority m) = Inr a2" by auto
  from wf_Section_WriteTo[OF w3] obtain a3 where a3: "Section_WriteTo (Additional m) = Inr a3" by auto
  define qb where "qb = Question_WriteTo (Question m)"
  define bs where "bs = Header_WriteTo ?h @ qb @ a1 @ a2 @ a3"
  have enc: "MarshalBinary m = Inr bs"
    by (simp add: MarshalBinary_def Message_WriteTo_def a1 a2 a3 bs_def qb_def)
  define r0 where "r0 = NewReader bs"
  have le0: "pos r0 \<le> length (data r0)" by (simp add: r0_def NewReader_def)
  have D0: "drop (pos r0) (data r0) = Header_WriteTo ?h @ (qb @ a1 @ a2 @ a3)"
    by (simp add: r0_def NewReader_def bs_def)
  define r1 where "r1 = r0\<lparr>pos := pos r0 + length (Header_WriteTo ?h)\<rparr>"
  have H: "Header_ReadFrom zero_Header r0 = (?h, r1, 12, None)"
    using Header_ReadFrom_WriteTo[OF op rc le0 D0] by (simp add: r1_def)
  have A1: "drop (pos r1) (data r1) = qb @ (a1 @ a2 @ a3)" "pos r1 \<le> length (data r1)"
    using drop_pos_advance[OF le0 D0] by (simp_all add: r1_def)
  define r2 where "r2 = r1\<lparr>pos := pos r1 + length qb\<rparr>"
  have Q: "Question_ReadFrom (replicate (unat (QuestionCount ?h)) zero_Query) r1 =
             Some (Question m, r2, length qb, None)"
    using Question_round_trip[OF wq A1(2) A1(1)[unfolded qb_def]] cq by (simp add: r2_def qb_def)
  have A2: "drop (pos r2) (data r2) = a1 @ (a2 @ a3)" "pos r2 \<le> length (data r2)"
    using drop_pos_advance[OF A1(2) A1(1)] by (simp_all add: r2_def)
  define r3 where "r3 = r2\<lparr>pos := pos r2 + length a1\<rparr>"
  have S1: "Section_ReadFrom (unat (AnswerCount ?h)) r2 =
              Some (map Some (Answer m), r3, length a1, None)"
    using Section_round_trip[OF w1 A2(2) a1 A2(1)] c1 by (simp add: r3_def)
  have A3: "drop (pos r3) (data r3) = a2 @ a3" "pos r3 \<le> length (data r3)"
    using drop_pos_advance[OF A2(2) A2(1)] by (simp_all add: r3_def)
  define r4 where "r4 = r3\<lparr>pos := pos r3 + length a2\<rparr>"
  have S2: "Section_ReadFrom (unat (AuthorityCount ?h)) r3 =
              Some (map Some (Authority m), r4, length a2, None)"
    using Section_round_trip[OF w2 A3(2) a2 A3(1)] c2 by (simp add: r4_def)
  have A4: "drop (pos r4) (data r4) = a3 @ []" "pos r4 \<le> length (data r4)"
    using drop_pos_advance[OF A3(2) A3(1)] by (simp_all add: r4_def)
  define r5 where "r5 = r4\<lparr>pos := pos r4 + length a3\<rparr>"
  have S3: "Section_ReadFrom (unat (AdditionalCount ?h)) r4 =
              Some (map Some (Additional m), r5, length a3, None)"
    using Section_round_trip[OF w3 A4(2) a3 A4(1)] c3 by (simp add: r5_def)
  have "Message_ReadFrom zero_Message r0 =
          Some (\<lparr>Header = ?h, Question = Question m, Answer = Answer m,
                  Authority = Authority m, Additional = Additional m\<rparr>,
                r5, 12 + length qb + length a1 + length a2 + length a3, None)"
    by (simp add: Message_ReadFrom_def zero_Message_def H Q S1 S2 S3)
  then have "Message_ReadFrom zero_Message r0 =
          Some (m, r5, 12 + length qb + length a1 + length a2 + length a3, None)"
    by simp
  then have "UnmarshalBinary zero_Message bs = Some (m, Message_Error m)"
    by (simp add: UnmarshalBinary_def r0_def)
  with enc show ?thesis by blast
qed

lemmas Code_defs = CodeNoError_def CodeFormatError_def CodeServerFailure_def CodeNameError_def
  CodeNotImplemented_def CodeRefused_def

lemma Section_ReadFrom_zero [simp]: "Section_ReadFrom 0 r = Some ([], r, 0, None)"
  by (subst Section_ReadFrom_unfold) (simp add: Section_body_def)

lemma Section_ReadFrom_skip:
  assumes R: "ResourceRecord_ReadFrom zero_ResourceRecord r = Some (rr, r1, n1, None)"
    and T: "Type rr \<notin> {TypeA, TypeNS, TypeCNAME, TypeSOA, TypePTR, TypeMX, TypeTXT, TypeAAAA}"
    and L: "pos r1 + unat (ResourceRecord.Length rr) \<le> length (data r)"
  shows "Section_ReadFrom (Suc k) r =
           Section_ReadFrom k (r1\<lparr>pos := pos r1 + unat (ResourceRecord.Length rr)\<rparr>) \<bind>
             (\<lambda>(rest, r3, i3, e3).
                Some (None # rest, r3, n1 + unat (ResourceRecord.Length rr) + i3, e3))"
proof -
  from ResourceRecord_ReadFrom_frame[OF R] have "data r1 = data r" by (simp add: frame_ok_def)
  with L have "io_CopyN_Discard r1 (unat (ResourceRecord.Length rr)) =
      (r1\<lparr>pos := pos r1 + unat (ResourceRecord.Length rr)\<rparr>, unat (ResourceRecord.Length rr), None)"
    by (simp add: io_CopyN_Discard_def Let_def min_def)
  with T have P: "Section_payload Section_ReadFrom rr r1 =
      Some (None, r1\<lparr>pos := pos r1 + unat (ResourceRecord.Length rr)\<rparr>,
            unat (ResourceRecord.Length rr), None)"
    by (simp add: Section_payload_def)
  show ?thesis
    by (subst Section_ReadFrom_unfold) (simp add: Section_body_def R P)
qed

lemma wf_example: "wf_Message example_Message"
  by (simp add: wf_Message_def example_Message_def example_com_def zero_Header_def wf_Label_def
        OFBit_def)

lemma enc_example:
  "MarshalBinary example_Message =
     Inr ([0x12, 0x34, 0x81, 0, 0, 1, 0, 1, 0, 0, 0, 0]
          @ [7, 0x65, 0x78, 0x61, 0x6D, 0x70, 0x6C, 0x65, 3, 0x63, 0x6F, 0x6D, 0, 0, 1, 0, 1]
          @ [7, 0x65, 0x78, 0x61, 0x6D, 0x70, 0x6C, 0x65, 3, 0x63, 0x6F, 0x6D, 0, 0, 1, 0, 1,
             0, 0, 0, 1, 0, 4, 1, 2, 3, 4])"
  by (simp add: MarshalBinary_def Message_WriteTo_def example_Message_def example_com_def
        zero_Header_def Header_WriteTo_def Question_WriteTo_def Query_WriteTo_def Domain_WriteTo_def
        Label_WriteTo_def zero_Label_def Section_WriteTo_def ResourceRecord_WriteTo_def
        BigEndian_PutUint16_def BigEndian_PutUint32_def TypeA_def QRBit_def RDBit_def Let_def)

text \<open>The reply for \<^verbatim>\<open>example.com.\<close>, its 56 bytes, and their decoding.\<close>

theorem Message_round_trip_witness:
  "wf_Message example_Message
   \<and> MarshalBinary example_Message =
     Inr ([0x12, 0x34, 0x81, 0, 0, 1, 0, 1, 0, 0, 0, 0]
          @ [7, 0x65, 0x78, 0x61, 0x6D, 0x70, 0x6C, 0x65, 3, 0x63, 0x6F, 0x6D, 0, 0, 1, 0, 1]
          @ [7, 0x65, 0x78, 0x61, 0x6D, 0x70, 0x6C, 0x65, 3, 0x63, 0x6F, 0x6D, 0, 0, 1, 0, 1,
             0, 0, 0, 1, 0, 4, 1, 2, 3, 4])
   \<and> UnmarshalBinary zero_Message
       ([0x12, 0x34, 0x81, 0, 0, 1, 0, 1, 0, 0, 0, 0]
          @ [7, 0x65, 0x78, 0x61, 0x6D, 0x70, 0x6C, 0x65, 3, 0x63, 0x6F, 0x6D, 0, 0, 1, 0, 1]
          @ [7, 0x65, 0x78, 0x61, 0x6D, 0x70, 0x6C, 0x65, 3, 0x63, 0x6F, 0x6D, 0, 0, 1, 0, 1,
             0, 0, 0, 1, 0, 4, 1, 2, 3, 4])
       = Some (example_Message, None)"
proof -
  have E: "Message_Error example_Message = None"
    by (simp add: Message_Error_def example_Message_def zero_Header_def errors_def Code_defs)
  from Message_round_trip[OF wf_example] enc_example E wf_example show ?thesis
    by auto
qed

text \<open>
  The claim as the specification states it fails on a mailbox record: the decoder's
  switch has no case for its type, so the payload is skipped by its declared length and
  the element of the section stays nil.
\<close>

theorem Message_round_trip_mailbox_counterexample:
  "MarshalBinary mailbox_Message =
     Inr ([0x12, 0x34, 0, 0, 0, 0, 0, 1, 0, 0, 0, 0] @ [0, 0, 7, 0, 1, 0, 0, 0, 1, 0, 1, 0])
   \<and> UnmarshalBinary zero_Message
       ([0x12, 0x34, 0, 0, 0, 0, 0, 1, 0, 0, 0, 0] @ [0, 0, 7, 0, 1, 0, 0, 0, 1, 0, 1, 0])
       = Some (mailbox_Message\<lparr>Answer := [NilReply]\<rparr>, None)
   \<and> mailbox_Message\<lparr>Answer := [NilReply]\<rparr> \<noteq> mailbox_Message"
proof -
  let ?h = "zero_Header\<lparr>ID := 0x1234, AnswerCount := 1\<rparr>"
  let ?rr = "\<lparr>Domain = [zero_Label], Type = TypeMB, Class = 1, TimeToLive = 1, Length = 1\<rparr>"
  let ?bs = "[0x12, 0x34, 0, 0, 0, 0, 0, 1, 0, 0, 0, 0] @ [0, 0, 7, 0, 1, 0, 0, 0, 1, 0, 1, 0 :: byte]"
  let ?r0 = "NewReader ?bs"
  have hb: "Header_WriteTo ?h = [0x12, 0x34, 0, 0, 0, 0, 0, 1, 0, 0, 0, 0]"
    by (simp add: Header_WriteTo_def zero_Header_def BigEndian_PutUint16_def Let_def)
  have rb: "ResourceRecord_WriteTo ?rr = [0, 0, 7, 0, 1, 0, 0, 0, 1, 0, 1]"
    by (simp add: ResourceRecord_WriteTo_def Query_WriteTo_def Domain_WriteTo_def
          Label_WriteTo_def zero_Label_def BigEndian_PutUint16_def BigEndian_PutUint32_def
          TypeMB_def)
  have db: "Domain_WriteTo [zero_Label] = [0]"
    by (simp add: Domain_WriteTo_def Label_WriteTo_def zero_Label_def)
  have enc: "MarshalBinary mailbox_Message = Inr ?bs"
    by (simp add: MarshalBinary_def Message_WriteTo_def mailbox_Message_def hb rb db
          Question_WriteTo_def Section_WriteTo_def)
  have H: "Header_ReadFrom zero_Header ?r0 = (?h, ?r0\<lparr>pos := pos ?r0 + 12\<rparr>, 12, None)"
    by (rule Header_ReadFrom_WriteTo[where rest = "[0, 0, 7, 0, 1, 0, 0, 0, 1, 0, 1, 0]"])
       (simp_all add: zero_Header_def NewReader_def hb[unfolded zero_Header_def, simplified])
  let ?r1 = "\<lparr>data = ?bs, pos = 12, seekable = True\<rparr>"
  have R: "ResourceRecord_ReadFrom zero_ResourceRecord ?r1 =
             Some (?rr, ?r1\<lparr>pos := pos ?r1 + length (ResourceRecord_WriteTo ?rr)\<rparr>,
                   length (ResourceRecord_WriteTo ?rr), None)"
    by (rule ResourceRecord_ReadFrom_WriteTo[where rest = "[0]"]) (simp_all add: rb)
  have S: "Section_ReadFrom 1 ?r1 = Some ([None], \<lparr>data = ?bs, pos = 24, seekable = True\<rparr>, 12, None)"
    using Section_ReadFrom_skip[OF R, of 0]
    by (simp add: rb) (simp add: Type_defs TypeMB_def)
  have "Message_ReadFrom zero_Message ?r0 =
          Some (mailbox_Message\<lparr>Answer := [NilReply]\<rparr>,
                \<lparr>data = ?bs, pos = 24, seekable = True\<rparr>, 24, None)"
    using S
    by (simp add: Message_ReadFrom_def zero_Message_def H[unfolded NewReader_def, simplified]
          NewReader_def made_Section_def mailbox_Message_def Let_def)
       (simp add: zero_Header_def made_Section_def)
  then have dec: "UnmarshalBinary zero_Message ?bs = Some (mailbox_Message\<lparr>Answer := [NilReply]\<rparr>, None)"
    by (simp add: UnmarshalBinary_def Message_Error_def mailbox_Message_def zero_Header_def
          errors_def Code_defs)
  have "mailbox_Message\<lparr>Answer := [NilReply]\<rparr> \<noteq> mailbox_Message"
    by (simp add: mailbox_Message_def)
  with enc dec show ?thesis by simp
qed

section \<open>Records of an unknown type\<close>

text \<open>
  Claim C7. A resource record whose type is none of the eight the switch of
  \<^verbatim>\<open>Section.ReadFrom\<close> has a case for, with its common prefix decoded and the payload
  bytes its length field declares present in the buffer: decoding it does not fail, the
  element of the section stays nil, and the cursor ends exactly that many bytes after the
  prefix, where the loop goes on with the next record.
\<close>

theorem Section_ReadFrom_unknown_type:
  assumes "ResourceRecord_ReadFrom zero_ResourceRecord r = Some (rr, r1, n1, None)"
    and "Type rr \<notin> {TypeA, TypeNS, TypeCNAME, TypeSOA, TypePTR, TypeMX, TypeTXT, TypeAAAA}"
    and "pos r1 + unat (ResourceRecord.Length rr) \<le> length (data r)"
  shows "Section_ReadFrom 1 r =
           Some ([None], r1\<lparr>pos := pos r1 + unat (ResourceRecord.Length rr)\<rparr>,
                 n1 + unat (ResourceRecord.Length rr), None)
       \<and> Section_ReadFrom (Suc k) r =
           Section_ReadFrom k (r1\<lparr>pos := pos r1 + unat (ResourceRecord.Length rr)\<rparr>) \<bind>
             (\<lambda>(rest, r3, i3, e3).
                Some (None # rest, r3, n1 + unat (ResourceRecord.Length rr) + i3, e3))"
  using Section_ReadFrom_skip[OF assms, of 0] Section_ReadFrom_skip[OF assms, of k]
  by simp

text \<open>
  A record of type 99 with a payload of three bytes, followed by an address record: the
  first is skipped, the second is decoded from byte 14 on.
\<close>

theorem Section_ReadFrom_unknown_type_witness:
  "ResourceRecord_ReadFrom zero_ResourceRecord
     (NewReader ([0, 0, 99, 0, 1, 0, 0, 0, 60, 0, 3, 0xAA, 0xBB, 0xCC]
                 @ [0, 0, 1, 0, 1, 0, 0, 0, 60, 0, 4, 1, 2, 3, 4])) =
     Some (\<lparr>Domain = [zero_Label], Type = 99, Class = 1, TimeToLive = 60, Length = 3\<rparr>,
           \<lparr>data = [0, 0, 99, 0, 1, 0, 0, 0, 60, 0, 3, 0xAA, 0xBB, 0xCC]
                   @ [0, 0, 1, 0, 1, 0, 0, 0, 60, 0, 4, 1, 2, 3, 4],
            pos = 11, seekable = True\<rparr>, 11, None)
   \<and> Section_ReadFrom 2
     (NewReader ([0, 0, 99, 0, 1, 0, 0, 0, 60, 0, 3, 0xAA, 0xBB, 0xCC]
                 @ [0, 0, 1, 0, 1, 0, 0, 0, 60, 0, 4, 1, 2, 3, 4])) =
     Some ([None,
            Some (ResourceRecordA
                    \<lparr>Domain = [zero_Label], Type = TypeA, Class = 1, TimeToLive = 60, Length = 4\<rparr>
                    [1, 2, 3, 4])],
           \<lparr>data = [0, 0, 99, 0, 1, 0, 0, 0, 60, 0, 3, 0xAA, 0xBB, 0xCC]
                   @ [0, 0, 1, 0, 1, 0, 0, 0, 60, 0, 4, 1, 2, 3, 4],
            pos = 29, seekable = True\<rparr>, 29, None)"
proof -
  let ?bs = "[0, 0, 99, 0, 1, 0, 0, 0, 60, 0, 3, 0xAA, 0xBB, 0xCC]
                 @ [0, 0, 1, 0, 1, 0, 0, 0, 60, 0, 4, 1, 2, 3, 4 :: byte]"
  let ?rr0 = "\<lparr>Domain = [zero_Label], Type = 99, Class = 1, TimeToLive = 60, Length = 3\<rparr>"
  let ?rr1 = "\<lparr>Domain = [zero_Label], Type = TypeA, Class = 1, TimeToLive = 60, Length = 4\<rparr>"
  let ?r0 = "NewReader ?bs"
  have b0: "ResourceRecord_WriteTo ?rr0 = [0, 0, 99, 0, 1, 0, 0, 0, 60, 0, 3]"
    by (simp add: ResourceRecord_WriteTo_def Query_WriteTo_def Domain_WriteTo_def
          Label_WriteTo_def zero_Label_def BigEndian_PutUint16_def BigEndian_PutUint32_def)
  have b1: "ResourceRecord_WriteTo ?rr1 = [0, 0, 1, 0, 1, 0, 0, 0, 60, 0, 4]"
    by (simp add: ResourceRecord_WriteTo_def Query_WriteTo_def Domain_WriteTo_def
          Label_WriteTo_def zero_Label_def BigEndian_PutUint16_def BigEndian_PutUint32_def
          TypeA_def)
  have R: "ResourceRecord_ReadFrom zero_ResourceRecord ?r0 =
             Some (?rr0, ?r0\<lparr>pos := pos ?r0 + length (ResourceRecord_WriteTo ?rr0)\<rparr>,
                   length (ResourceRecord_WriteTo ?rr0), None)"
    by (rule ResourceRecord_ReadFrom_WriteTo[where rest =
          "[0xAA, 0xBB, 0xCC, 0, 0, 1, 0, 1, 0, 0, 0, 60, 0, 4, 1, 2, 3, 4]"])
       (simp_all add: b0 NewReader_def)
  then have R': "ResourceRecord_ReadFrom zero_ResourceRecord ?r0 =
             Some (?rr0, \<lparr>data = ?bs, pos = 11, seekable = True\<rparr>, 11, None)"
    by (simp add: b0 NewReader_def)
  have T: "Type ?rr0 \<notin> {TypeA, TypeNS, TypeCNAME, TypeSOA, TypePTR, TypeMX, TypeTXT, TypeAAAA}"
    by (simp add: Type_defs)
  have N: "Section_ReadFrom (length [ResourceRecordA ?rr1 [1, 2, 3, 4]])
             \<lparr>data = ?bs, pos = 14, seekable = True\<rparr> =
           Some (map Some [ResourceRecordA ?rr1 [1, 2, 3, 4]],
                 \<lparr>data = ?bs, pos = 14, seekable = True\<rparr>
                   \<lparr>pos := pos \<lparr>data = ?bs, pos = 14, seekable = True\<rparr>
                      + length (ResourceRecord_WriteTo ?rr1 @ [1, 2, 3, 4])\<rparr>,
                 length (ResourceRecord_WriteTo ?rr1 @ [1, 2, 3, 4]), None)"
    by (rule Section_round_trip[where rest = "[]"])
       (simp_all add: b1 Section_WriteTo_def)
  from Section_ReadFrom_unknown_type[OF R' T, of 1, unfolded Suc_1] N R' show ?thesis
    by (simp add: b1 NewReader_def)
qed

section \<open>Frames of the header and of a message\<close>















section \<open>Readers that return\<close>










section \<open>Buffers that end before the declared entries\<close>

















text \<open>
  Twelve bytes of header followed by the encodings of well-formed questions and records
  are a buffer that holds these entries and nothing else.
\<close>

lemma entries_serialized_WriteTo:
  assumes hb: "length hb = 12"
    and wq: "\<forall>q\<in>set qs. wf_Domain (Domain q)"
    and ws: "\<forall>x\<in>set s. wf_Reply x"
    and sb: "Section_WriteTo s = Inr sb"
  shows "entries_serialized (hb @ Question_WriteTo qs @ sb) (length qs) (length s)"
proof -
  define bs where "bs = hb @ Question_WriteTo qs @ sb"
  define r1 where "r1 = \<lparr>data = bs, pos = 12, seekable = True\<rparr>"
  define r2 where "r2 = r1\<lparr>pos := pos r1 + length (Question_WriteTo qs)\<rparr>"
  have d1: "drop (pos r1) (data r1) = Question_WriteTo qs @ sb" "pos r1 \<le> length (data r1)"
    using hb by (simp_all add: r1_def bs_def)
  have Q: "Question_ReadFrom (replicate (length qs) zero_Query) r1 =
             Some (qs, r2, length (Question_WriteTo qs), None)"
    unfolding r2_def by (rule Question_round_trip[OF wq d1(2) d1(1)])
  have d2: "drop (pos r2) (data r2) = sb @ []" "pos r2 \<le> length (data r2)"
    using hb by (simp_all add: r2_def r1_def bs_def)
  have S: "Section_ReadFrom (length s) r2 =
             Some (map Some s, r2\<lparr>pos := pos r2 + length sb\<rparr>, length sb, None)"
    by (rule Section_round_trip[OF ws d2(2) sb d2(1)])
  have "pos (r2\<lparr>pos := pos r2 + length sb\<rparr>) = length bs"
    using hb by (simp add: r2_def r1_def bs_def)
  with Q S show ?thesis
    unfolding entries_serialized_def bs_def[symmetric] r1_def[symmetric]
    by simp
qed

section \<open>A header that declares more than the buffer holds\<close>




end
